theory Spec2Isabelle
  imports Complex_Main "HOL-Library.Word"
begin

section \<open>Errors and arrays\<close>

text \<open>
  The exceptions the modelled code can raise.  A computation that may raise returns
  \<open>error + 'a\<close>, with \<open>Inl\<close> carrying the exception.
\<close>

datatype error = IndexError | ValueError | ZeroDivisionError | UnboundLocalError | FileNotFoundError

definition bind_err :: "error + 'a \<Rightarrow> ('a \<Rightarrow> error + 'b) \<Rightarrow> error + 'b" where
  "bind_err m f = (case m of Inl e \<Rightarrow> Inl e | Inr x \<Rightarrow> f x)"

text \<open>
  A numpy array is a view on a memory buffer: a shape, one stride per axis and the
  buffer itself.  Strides are counted in elements (numpy counts them in bytes; the item
  size is a common factor).  The buffer is a map from element addresses, relative to the
  view's base pointer, to values.  The element at a multi-index is read at the sum of
  index times stride, which is what \<open>as_strided\<close> relies on.
\<close>

record 'a ndarray =
  shape :: "nat list"
  strides :: "nat list"
  buf :: "nat \<Rightarrow> 'a"

fun offset_of :: "nat list \<Rightarrow> nat list \<Rightarrow> nat" where
  "offset_of (i # idx) (s # ss) = i * s + offset_of idx ss"
| "offset_of _ _ = 0"

definition item :: "'a ndarray \<Rightarrow> nat list \<Rightarrow> 'a" where
  "item a idx = buf a (offset_of idx (strides a))"

text \<open>Strides of a freshly allocated (C-contiguous) array, and the inverse of its addressing.\<close>

fun c_strides :: "nat list \<Rightarrow> nat list" where
  "c_strides [] = []"
| "c_strides (d # ds) = prod_list ds # c_strides ds"

fun unravel :: "nat list \<Rightarrow> nat \<Rightarrow> nat list" where
  "unravel [] f = []"
| "unravel (d # ds) f = (f div prod_list ds) # unravel ds (f mod prod_list ds)"

text \<open>A fresh C-contiguous array of shape \<open>sh\<close> whose element at \<open>idx\<close> is \<open>g idx\<close>.\<close>

definition fresh :: "nat list \<Rightarrow> (nat list \<Rightarrow> 'a) \<Rightarrow> 'a ndarray" where
  "fresh sh g = \<lparr>shape = sh, strides = c_strides sh, buf = (\<lambda>f. g (unravel sh f))\<rparr>"

text \<open>
  \<open>a.reshape(new_shape)\<close>: the elements of \<open>a\<close> in C order under the new shape; a
  \<open>ValueError\<close> when the sizes differ.
\<close>

definition reshape :: "'a ndarray \<Rightarrow> nat list \<Rightarrow> error + 'a ndarray" where
  "reshape a new_shape =
     (if prod_list new_shape \<noteq> prod_list (shape a) then Inl ValueError
      else Inr \<lparr>shape = new_shape, strides = c_strides new_shape,
                buf = (\<lambda>f. item a (unravel (shape a) f))\<rparr>)"

text \<open>\<open>a.transpose(2, 0, 1)\<close>: a view with the axes permuted; the array must have three axes.\<close>

definition transpose_201 :: "'a ndarray \<Rightarrow> error + 'a ndarray" where
  "transpose_201 a =
     (case (shape a, strides a) of
        ([d0, d1, d2], [s0, s1, s2]) \<Rightarrow>
          Inr \<lparr>shape = [d2, d0, d1], strides = [s2, s0, s1], buf = buf a\<rparr>
      | _ \<Rightarrow> Inl ValueError)"

text \<open>\<open>a[p]\<close>: the view on the \<open>p\<close>-th sub-array along the first axis.\<close>

definition subarray :: "'a ndarray \<Rightarrow> nat \<Rightarrow> 'a ndarray" where
  "subarray a p =
     \<lparr>shape = tl (shape a), strides = tl (strides a), buf = (\<lambda>n. buf a (p * hd (strides a) + n))\<rparr>"

text \<open>The array as nested lists (\<open>a.tolist()\<close>) for two and three axes, and in C order.\<close>

definition tolist2 :: "'a ndarray \<Rightarrow> 'a list list" where
  "tolist2 a = map (\<lambda>r. map (\<lambda>c. item a [r, c]) [0..<shape a ! 1]) [0..<shape a ! 0]"

definition tolist3 :: "'a ndarray \<Rightarrow> 'a list list list" where
  "tolist3 a =
     map (\<lambda>b. map (\<lambda>r. map (\<lambda>c. item a [b, r, c]) [0..<shape a ! 2]) [0..<shape a ! 1])
       [0..<shape a ! 0]"

definition ravel :: "'a ndarray \<Rightarrow> 'a list" where
  "ravel a = map (\<lambda>f. item a (unravel (shape a) f)) [0..<prod_list (shape a)]"

section \<open>The patch tiler\<close>

definition patch_size_message :: string where
  "patch_size_message = ''The patch size is not a full multiple of the complete patch size''"

text \<open>
  \<open>cut_image_strided(img, new_size)\<close>.  The result carries the lines printed and the
  strided view.  Floor division and remainder by a zero patch size raise
  \<open>ZeroDivisionError\<close>; \<open>img.shape[2]\<close> and \<open>img.strides[2]\<close> raise
  \<open>IndexError\<close> on an array of fewer than three axes.
\<close>

definition cut_image_strided :: "'a ndarray \<Rightarrow> nat \<times> nat \<Rightarrow> error + (string list \<times> 'a ndarray)" where
  "cut_image_strided img new_size =
     (case shape img of
        bands # old_size_y # old_size_x # _ \<Rightarrow>
          (let (new_size_y, new_size_x) = new_size in
           if new_size_x = 0 \<or> new_size_y = 0 then Inl ZeroDivisionError
           else
             let nr_images_x = old_size_x div new_size_x;
                 nr_images_y = old_size_y div new_size_y;
                 printed = (if old_size_x mod new_size_x \<noteq> 0 \<or> old_size_y mod new_size_y \<noteq> 0
                            then [patch_size_message] else [])
             in (case strides img of
                   s0 # s1 # s2 # _ \<Rightarrow>
                     Inr (printed,
                          \<lparr>shape = [nr_images_y, nr_images_x, bands, new_size_y, new_size_x],
                           strides = [s1 * new_size_y, s2 * new_size_x, s0, s1, s2],
                           buf = buf img\<rparr>)
                 | _ \<Rightarrow> Inl IndexError))
      | _ \<Rightarrow> Inl IndexError)"

text \<open>
  Putting the tiles of a five-axis tile array back at their grid positions: the element
  at band \<open>b\<close>, row \<open>r\<close>, column \<open>c\<close> of the reassembled image is taken from tile
  \<open>(r div Ty, c div Tx)\<close> at \<open>(r mod Ty, c mod Tx)\<close>.  This is the reassembly the
  round-trip property speaks of; the repository has no such function.
\<close>

definition reassemble :: "'a ndarray \<Rightarrow> 'a list list list" where
  "reassemble t =
     (let ny = shape t ! 0; nx = shape t ! 1; bands = shape t ! 2; ty = shape t ! 3; tx = shape t ! 4
      in map (\<lambda>b. map (\<lambda>r. map (\<lambda>c. item t [r div ty, c div tx, b, r mod ty, c mod tx])
                                [0..<nx * tx]) [0..<ny * ty]) [0..<bands])"

section \<open>Label masks: palette, decoding, encoding\<close>

text \<open>
  An RGB image as \<open>np.asarray(Image.open(path).convert('RGB'))\<close> yields it: height
  times width pixels, each a triple of unsigned bytes (the last axis, of length 3).
\<close>

type_synonym rgb = "8 word \<times> 8 word \<times> 8 word"

record rgb_image =
  height :: nat
  width :: nat
  pixel :: "nat \<Rightarrow> nat \<Rightarrow> rgb"

text \<open>The palette, a dict in insertion order; the class and \<open>mask2rgb\<close> hold the same one.\<close>

definition color_label_dict :: "(nat \<times> rgb) list" where
  "color_label_dict =
     [(0, (0, 0, 0)), (1, (128, 0, 0)), (2, (0, 128, 0)), (3, (128, 128, 0)),
      (4, (0, 0, 128)), (5, (128, 0, 128)), (6, (0, 128, 128)), (7, (128, 128, 128))]"

text \<open>
  \<open>rgb_to_onehot\<close>: a zero array of shape \<open>(H, W, num_classes)\<close> whose layer \<open>i\<close> is
  set to 1 where the pixel equals \<open>color_label_dict[i]\<close>.
\<close>

definition rgb_to_onehot :: "rgb_image \<Rightarrow> int ndarray" where
  "rgb_to_onehot rgb_arr =
     (let num_classes = length color_label_dict
      in fresh [height rgb_arr, width rgb_arr, num_classes]
           (\<lambda>idx. if map_of color_label_dict (idx ! 2) = Some (pixel rgb_arr (idx ! 0) (idx ! 1))
                  then 1 else 0))"

text \<open>\<open>np.argmax\<close> of a sequence: the index of the first occurrence of the maximum.\<close>

fun argmax_from :: "nat \<Rightarrow> int \<Rightarrow> nat \<Rightarrow> int list \<Rightarrow> nat" where
  "argmax_from best bv i [] = best"
| "argmax_from best bv i (v # vs) =
     (if bv < v then argmax_from i v (Suc i) vs else argmax_from best bv (Suc i) vs)"

definition argmax :: "int list \<Rightarrow> nat" where
  "argmax xs = (case xs of [] \<Rightarrow> 0 | x # vs \<Rightarrow> argmax_from 0 x 1 vs)"

text \<open>
  \<open>np.argmax(a, axis=2)\<close> on an array of three axes; numpy raises a \<open>ValueError\<close> on
  an empty axis or an axis the array does not have.
\<close>

definition argmax_axis2 :: "int ndarray \<Rightarrow> error + nat ndarray" where
  "argmax_axis2 a =
     (case shape a of
        [h, w, n] \<Rightarrow>
          if n = 0 then Inl ValueError
          else Inr (fresh [h, w] (\<lambda>idx. argmax (map (\<lambda>i. item a (idx @ [i])) [0..<n])))
      | _ \<Rightarrow> Inl ValueError)"

text \<open>The decoding of a label image as the constructor does it (lines 153 and 154).\<close>

definition decode_rgb :: "rgb_image \<Rightarrow> error + nat ndarray" where
  "decode_rgb cm_rgb = argmax_axis2 (rgb_to_onehot cm_rgb)"

text \<open>
  A class mask of shape \<open>(1, rows, cols)\<close>, the input of \<open>mask2rgb\<close>: one band of
  integer labels.
\<close>

record band_mask =
  rows :: nat
  cols :: nat
  cls :: "nat \<Rightarrow> nat \<Rightarrow> int"

text \<open>
  \<open>np.squeeze\<close> drops every axis of length one.  A boolean index array must agree
  with the leading axes of the array it indexes, or numpy raises \<open>IndexError\<close>.
\<close>

definition squeeze_shape :: "nat list \<Rightarrow> nat list" where
  "squeeze_shape sh = filter (\<lambda>d. d \<noteq> 1) sh"

definition bool_index_ok :: "nat list \<Rightarrow> nat list \<Rightarrow> bool" where
  "bool_index_ok bshape ashape = (length bshape \<le> length ashape \<and> take (length bshape) ashape = bshape)"

text \<open>
  \<open>mask2rgb\<close>.  \<open>maskRGB\<close> starts as \<open>np.empty((rows, cols, 3))\<close>, whose content is
  whatever the memory held: the parameter \<open>uninit\<close>.  The mask is squeezed, and for every
  key of the palette in order \<open>maskRGB[mask == key] = pixel_value\<close> is run.  The boolean
  index has the squeezed shape; where it agrees with the leading axes of \<open>maskRGB\<close> the
  assignment sets exactly the pixels whose label is the key (for a squeezed shape of
  \<open>(rows, cols)\<close>, of \<open>(rows)\<close> when \<open>cols = 1\<close>, and of \<open>()\<close> when both are 1).
\<close>

definition mask2rgb :: "(nat \<Rightarrow> nat \<Rightarrow> rgb) \<Rightarrow> band_mask \<Rightarrow> error + rgb_image" where
  "mask2rgb uninit msk =
     (if color_label_dict \<noteq> [] \<and>
         \<not> bool_index_ok (squeeze_shape [1, rows msk, cols msk]) [rows msk, cols msk, 3]
      then Inl IndexError
      else Inr \<lparr>height = rows msk, width = cols msk,
                pixel = foldl (\<lambda>maskRGB (key, pixel_value).
                                 (\<lambda>r c. if cls msk r c = int key then pixel_value else maskRGB r c))
                          uninit color_label_dict\<rparr>)"

section \<open>Per-class pixel counts\<close>

text \<open>\<open>np.count_nonzero(a == k)\<close>.\<close>

definition count_nonzero_eq :: "nat ndarray \<Rightarrow> nat \<Rightarrow> nat" where
  "count_nonzero_eq a k = length (filter (\<lambda>v. v = k) (ravel a))"

text \<open>
  \<open>compute_for_INS_weights\<close>: the eight running counts, each increased by the number of
  pixels of its class.  The total \<open>n_pix\<close> is increased too but not returned.
\<close>

definition compute_for_INS_weights ::
  "nat ndarray \<Rightarrow> nat \<Rightarrow> nat \<Rightarrow> nat \<Rightarrow> nat \<Rightarrow> nat \<Rightarrow> nat \<Rightarrow> nat \<Rightarrow> nat \<Rightarrow> nat
     \<Rightarrow> nat \<times> nat \<times> nat \<times> nat \<times> nat \<times> nat \<times> nat \<times> nat" where
  "compute_for_INS_weights cm_indices_np n_pix n_pix0 n_pix1 n_pix2 n_pix3 n_pix4 n_pix5 n_pix6 n_pix7 =
     (let n_pix = n_pix + prod_list (shape cm_indices_np)
      in (n_pix0 + count_nonzero_eq cm_indices_np 0,
          n_pix1 + count_nonzero_eq cm_indices_np 1,
          n_pix2 + count_nonzero_eq cm_indices_np 2,
          n_pix3 + count_nonzero_eq cm_indices_np 3,
          n_pix4 + count_nonzero_eq cm_indices_np 4,
          n_pix5 + count_nonzero_eq cm_indices_np 5,
          n_pix6 + count_nonzero_eq cm_indices_np 6,
          n_pix7 + count_nonzero_eq cm_indices_np 7))"

text \<open>Python's \<open>a / b\<close> on integers: the exact quotient, \<open>ZeroDivisionError\<close> when \<open>b = 0\<close>.\<close>

definition py_truediv :: "nat \<Rightarrow> nat \<Rightarrow> error + rat" where
  "py_truediv a b = (if b = 0 then Inl ZeroDivisionError else Inr (of_nat a / of_nat b))"

section \<open>The dataset index\<close>

text \<open>
  The block that tiles one image, written four times in the constructor: transpose to
  \<open>(bands, y, x)\<close>, cut into 256 by 256 tiles, merge the two grid axes, and take the
  patches one by one.
\<close>

definition image_patches :: "'a ndarray \<Rightarrow> error + (string list \<times> 'a ndarray list)" where
  "image_patches img =
     bind_err (transpose_201 img) (\<lambda>img_t.
     bind_err (cut_image_strided img_t (256, 256)) (\<lambda>(out, patches).
     bind_err (reshape patches ((shape patches ! 0 * shape patches ! 1) # drop 2 (shape patches)))
       (\<lambda>patches_reshape.
     Inr (out, map (subarray patches_reshape) [0..<hd (shape patches_reshape)]))))"

text \<open>
  One label file of the training corpus with what the constructor loads for it: the two
  normalised rasters (as \<open>io.imread\<close> gives them, shape \<open>(y, x, bands)\<close>) and the
  label image.  Reading and normalising are outside the model.
\<close>

record 'a entry =
  I1 :: "'a ndarray"
  I2 :: "'a ndarray"
  cm_rgb_np :: rgb_image

text \<open>The object under construction, and the constructor's local variables beside it.\<close>

record 'a patch_lists =
  imgs_1 :: "'a ndarray list"
  imgs_2 :: "'a ndarray list"
  labels :: "nat ndarray list"

record 'a init_state = "'a patch_lists" +
  n_pix :: nat
  n_pix0 :: nat
  n_pix1 :: nat
  n_pix2 :: nat
  n_pix3 :: nat
  n_pix4 :: nat
  n_pix5 :: nat
  n_pix6 :: nat
  n_pix7 :: nat
  printed :: "string list"

record 'a ChangeDetectionDataset = "'a patch_lists" +
  train :: bool
  weights :: "rat list option"

definition initial_state :: "'a init_state" where
  "initial_state =
     \<lparr>imgs_1 = [], imgs_2 = [], labels = [], n_pix = 0, n_pix0 = 0, n_pix1 = 0, n_pix2 = 0,
      n_pix3 = 0, n_pix4 = 0, n_pix5 = 0, n_pix6 = 0, n_pix7 = 0, printed = []\<rparr>"

text \<open>The body of the training loop for one label file (lines 152 to 171).\<close>

definition train_file :: "'a entry \<Rightarrow> 'a init_state \<Rightarrow> error + 'a init_state" where
  "train_file e st =
     bind_err (decode_rgb (cm_rgb_np e)) (\<lambda>cm_indices_np.
     let (c0, c1, c2, c3, c4, c5, c6, c7) =
           compute_for_INS_weights cm_indices_np (n_pix st) (n_pix0 st) (n_pix1 st) (n_pix2 st)
             (n_pix3 st) (n_pix4 st) (n_pix5 st) (n_pix6 st) (n_pix7 st)
     in
     bind_err (reshape cm_indices_np [16, 256, 256]) (\<lambda>cm_reshape.
     bind_err (image_patches (I1 e)) (\<lambda>(out1, I1_patches).
     bind_err (image_patches (I2 e)) (\<lambda>(out2, I2_patches).
     Inr (st\<lparr>labels := labels st @ map (subarray cm_reshape) [0..<hd (shape cm_reshape)],
              imgs_1 := imgs_1 st @ I1_patches,
              imgs_2 := imgs_2 st @ I2_patches,
              n_pix0 := c0, n_pix1 := c1, n_pix2 := c2, n_pix3 := c3,
              n_pix4 := c4, n_pix5 := c5, n_pix6 := c6, n_pix7 := c7,
              printed := printed st @ out1 @ out2\<rparr>)))))"

text \<open>The loop over the label files of one location folder, and over the folders.\<close>

fun train_files :: "'a entry list \<Rightarrow> 'a init_state \<Rightarrow> error + 'a init_state" where
  "train_files [] st = Inr st"
| "train_files (e # es) st = bind_err (train_file e st) (train_files es)"

fun train_folders :: "'a entry list list \<Rightarrow> 'a init_state \<Rightarrow> error + 'a init_state" where
  "train_folders [] st = Inr st"
| "train_folders (folder # folders) st = bind_err (train_files folder st) (train_folders folders)"

text \<open>
  The constructor with \<open>train=True\<close>: the loops, then the eight weights, evaluated in
  order.
\<close>

definition init_train :: "'a entry list list \<Rightarrow> error + 'a ChangeDetectionDataset" where
  "init_train corpus =
     bind_err (train_folders corpus initial_state) (\<lambda>st.
     bind_err (py_truediv 1 (n_pix0 st)) (\<lambda>w0.
     bind_err (py_truediv 1 (n_pix1 st)) (\<lambda>w1.
     bind_err (py_truediv 1 (n_pix2 st)) (\<lambda>w2.
     bind_err (py_truediv 1 (n_pix3 st)) (\<lambda>w3.
     bind_err (py_truediv 1 (n_pix4 st)) (\<lambda>w4.
     bind_err (py_truediv 1 (n_pix5 st)) (\<lambda>w5.
     bind_err (py_truediv 1 (n_pix6 st)) (\<lambda>w6.
     bind_err (py_truediv 1 (n_pix7 st)) (\<lambda>w7.
     Inr \<lparr>imgs_1 = imgs_1 st, imgs_2 = imgs_2 st, labels = labels st, train = True,
          weights = Some [w0, w1, w2, w3, w4, w5, w6, w7]\<rparr>)))))))))"

text \<open>
  The total count of a class over a corpus, as the weight property reads it: the sum,
  over the label masks in traversal order, of the number of pixels of that class.
\<close>

definition mask_count :: "rgb_image \<Rightarrow> nat \<Rightarrow> nat" where
  "mask_count cm_rgb k = (case decode_rgb cm_rgb of Inl _ \<Rightarrow> 0 | Inr m \<Rightarrow> count_nonzero_eq m k)"

definition total_count :: "'a entry list list \<Rightarrow> nat \<Rightarrow> nat" where
  "total_count corpus k = sum_list (map (\<lambda>e. mask_count (cm_rgb_np e) k) (concat corpus))"

text \<open>
  The \<open>p\<close>-th spatial 256 by 256 tile of a mask in row-major order of the tile grid, the
  tile an image patch of the same position covers.
\<close>

definition mask_tile :: "nat ndarray \<Rightarrow> nat \<Rightarrow> nat list list" where
  "mask_tile m p =
     (let nx = shape m ! 1 div 256
      in map (\<lambda>y. map (\<lambda>x. item m [(p div nx) * 256 + y, (p mod nx) * 256 + x]) [0..<256]) [0..<256])"

section \<open>Configuration loading\<close>

text \<open>
  \<open>load_config\<close>.  The file system maps a path to the text of the file (\<open>None\<close>: no
  such file), and \<open>safe_load\<close> is \<open>yaml.safe_load\<close>: \<open>Inl\<close> carries the
  \<open>YAMLError\<close>, \<open>Inr\<close> the parsed document.  The local variable \<open>config\<close> is
  unbound until the assignment in the \<open>try\<close> block has run; \<open>return config\<close> on an
  unbound local raises \<open>UnboundLocalError\<close>.  The result carries the lines printed.
\<close>

definition load_config ::
  "(string \<Rightarrow> string option) \<Rightarrow> (string \<Rightarrow> string + 'cfg) \<Rightarrow> string \<Rightarrow> string list \<times> (error + 'cfg)" where
  "load_config fs safe_load configfile =
     (case fs configfile of
        None \<Rightarrow> ([], Inl FileNotFoundError)
      | Some stream \<Rightarrow>
          (let (out, config) =
                 (case safe_load stream of
                    Inr doc \<Rightarrow> ([], Some doc)
                  | Inl exc \<Rightarrow> ([exc], None))
           in (out, case config of None \<Rightarrow> Inl UnboundLocalError | Some doc \<Rightarrow> Inr doc)))"

section \<open>The dataset index in inference mode\<close>

text \<open>
  What the inference branch takes from outside: the three configured paths, directory
  listings, the file test, image reading, the natural sort of \<open>natsort\<close>, and the
  floating-point map \<open>(v - I.mean()) / I.std()\<close> of one pixel value \<open>v\<close> of an image
  \<open>I\<close>.
\<close>

record config =
  semi_supervised_labels_path :: string
  planet_boxes_path :: string
  planet_test_boxes_path :: string

record 'a test_env =
  listdir :: "string \<Rightarrow> error + string list"
  isfile :: "string \<Rightarrow> bool"
  imread :: "string \<Rightarrow> error + 'a ndarray"
  natsorted :: "string list \<Rightarrow> string list"
  znorm :: "'a ndarray \<Rightarrow> 'a \<Rightarrow> 'a"

text \<open>\<open>os.path.join\<close> of two components.\<close>

definition path_join :: "string \<Rightarrow> string \<Rightarrow> string" where
  "path_join a b =
     (if b \<noteq> [] \<and> hd b = CHR ''/'' then b
      else if a = [] \<or> last a = CHR ''/'' then a @ b
      else a @ ''/'' @ b)"

text \<open>\<open>sub in s\<close> on strings.\<close>

fun contains :: "string \<Rightarrow> string \<Rightarrow> bool" where
  "contains sub [] = (sub = [])"
| "contains sub (c # cs) = (take (length sub) (c # cs) = sub \<or> contains sub cs)"

text \<open>\<open>(I - I.mean()) / I.std()\<close>: a fresh array of the same shape.\<close>

definition standardize :: "'a test_env \<Rightarrow> 'a ndarray \<Rightarrow> 'a ndarray" where
  "standardize env img = fresh (shape img) (\<lambda>idx. znorm env img (item img idx))"

text \<open>The body of the innermost loop for one pair of files (lines 186 to 202).\<close>

definition test_pair :: "'a test_env \<Rightarrow> string \<Rightarrow> string \<Rightarrow> 'a init_state \<Rightarrow> error + 'a init_state" where
  "test_pair env original_image_path changed_image_path st =
     bind_err (imread env original_image_path) (\<lambda>I1_read.
     bind_err (imread env changed_image_path) (\<lambda>I2_read.
     bind_err (image_patches (standardize env I1_read)) (\<lambda>(out1, I1_patches).
     bind_err (image_patches (standardize env I2_read)) (\<lambda>(out2, I2_patches).
     Inr (st\<lparr>imgs_1 := imgs_1 st @ I1_patches,
              imgs_2 := imgs_2 st @ I2_patches,
              printed := printed st @ out1 @ out2\<rparr>)))))"

text \<open>
  The loop \<open>for idx, test_file_name in enumerate(test_file_name_filtered_and_sort)\<close>:
  \<open>names\<close> is the whole sorted list, \<open>idx\<close> the current index and the fourth argument
  the files still to visit.  Reading \<open>names[idx + 1]\<close> past the end raises
  \<open>IndexError\<close>.
\<close>

fun test_files ::
  "'a test_env \<Rightarrow> string \<Rightarrow> string list \<Rightarrow> nat \<Rightarrow> string list \<Rightarrow> 'a init_state \<Rightarrow> error + 'a init_state" where
  "test_files env test_folder_path names idx [] st = Inr st"
| "test_files env test_folder_path names idx (test_file_name # rest) st =
     (if idx \<noteq> 23 then
        (if idx + 1 < length names then
           bind_err (test_pair env (path_join test_folder_path test_file_name)
                       (path_join test_folder_path (names ! (idx + 1))) st)
             (test_files env test_folder_path names (idx + 1) rest)
         else Inl IndexError)
      else test_files env test_folder_path names (idx + 1) rest st)"

text \<open>One location directory: list, keep the names containing \<open>-01.tif\<close>, sort, loop.\<close>

definition test_location :: "'a test_env \<Rightarrow> string \<Rightarrow> 'a init_state \<Rightarrow> error + 'a init_state" where
  "test_location env test_folder_path st =
     bind_err (listdir env test_folder_path) (\<lambda>listing.
     let test_file_name_filtered = filter (contains ''-01.tif'') listing;
         test_file_name_filtered_and_sort = natsorted env test_file_name_filtered
     in test_files env test_folder_path test_file_name_filtered_and_sort 0
          test_file_name_filtered_and_sort st)"

text \<open>The loops over the location folders of one latitude folder, and over the latter.\<close>

fun test_locations :: "'a test_env \<Rightarrow> string \<Rightarrow> string list \<Rightarrow> 'a init_state \<Rightarrow> error + 'a init_state" where
  "test_locations env one_lat_test_path [] st = Inr st"
| "test_locations env one_lat_test_path (one_location_test_folder_name # rest) st =
     bind_err (test_location env
                 (path_join (path_join one_lat_test_path one_location_test_folder_name) ''L3H-SR'') st)
       (test_locations env one_lat_test_path rest)"

fun test_folders :: "'a test_env \<Rightarrow> config \<Rightarrow> string list \<Rightarrow> 'a init_state \<Rightarrow> error + 'a init_state" where
  "test_folders env cfg [] st = Inr st"
| "test_folders env cfg (planet_test_folder_name # rest) st =
     (let one_lat_test_path = path_join (planet_test_boxes_path cfg) planet_test_folder_name
      in if \<not> isfile env one_lat_test_path then
           bind_err (bind_err (listdir env one_lat_test_path)
                       (\<lambda>locations. test_locations env one_lat_test_path locations st))
             (test_folders env cfg rest)
         else test_folders env cfg rest st)"

text \<open>The constructor with \<open>train=False\<close>; it sets no weights.\<close>

definition init_test :: "'a test_env \<Rightarrow> config \<Rightarrow> error + 'a ChangeDetectionDataset" where
  "init_test env cfg =
     bind_err (listdir env (semi_supervised_labels_path cfg)) (\<lambda>folders.
     bind_err (test_folders env cfg folders initial_state) (\<lambda>st.
     Inr \<lparr>imgs_1 = imgs_1 st, imgs_2 = imgs_2 st, labels = labels st, train = False,
          weights = None\<rparr>))"

section \<open>Derived notions used in the statements and proofs\<close>

text \<open>
  What one iteration of the training loop appends and adds, written as total functions:
  the label patches of a label image, the patches and the printed lines of a raster, the
  eight running counts as a list, and the state after an iteration that raises nothing.
\<close>

definition label_patches :: "rgb_image \<Rightarrow> nat ndarray list" where
  "label_patches cm_rgb =
     (case bind_err (decode_rgb cm_rgb) (\<lambda>m. reshape m [16, 256, 256]) of
        Inl _ \<Rightarrow> []
      | Inr cm_reshape \<Rightarrow> map (subarray cm_reshape) [0..<hd (shape cm_reshape)])"

definition patches_of :: "'a ndarray \<Rightarrow> 'a ndarray list" where
  "patches_of img = (case image_patches img of Inl _ \<Rightarrow> [] | Inr (out, ps) \<Rightarrow> ps)"

definition prints_of :: "'a ndarray \<Rightarrow> string list" where
  "prints_of img = (case image_patches img of Inl _ \<Rightarrow> [] | Inr (out, ps) \<Rightarrow> out)"

definition counts :: "'a init_state \<Rightarrow> nat list" where
  "counts st = [n_pix0 st, n_pix1 st, n_pix2 st, n_pix3 st, n_pix4 st, n_pix5 st, n_pix6 st, n_pix7 st]"

definition mask_size :: "'a entry \<Rightarrow> nat" where
  "mask_size e = height (cm_rgb_np e) * width (cm_rgb_np e)"

definition entry_ok :: "'a entry \<Rightarrow> bool" where
  "entry_ok e = (mask_size e = 1048576 \<and> \<not> isl (image_patches (I1 e)) \<and> \<not> isl (image_patches (I2 e)))"

definition step :: "'a entry \<Rightarrow> 'a init_state \<Rightarrow> 'a init_state" where
  "step e st =
     st\<lparr>labels := labels st @ label_patches (cm_rgb_np e),
        imgs_1 := imgs_1 st @ patches_of (I1 e),
        imgs_2 := imgs_2 st @ patches_of (I2 e),
        n_pix0 := n_pix0 st + mask_count (cm_rgb_np e) 0,
        n_pix1 := n_pix1 st + mask_count (cm_rgb_np e) 1,
        n_pix2 := n_pix2 st + mask_count (cm_rgb_np e) 2,
        n_pix3 := n_pix3 st + mask_count (cm_rgb_np e) 3,
        n_pix4 := n_pix4 st + mask_count (cm_rgb_np e) 4,
        n_pix5 := n_pix5 st + mask_count (cm_rgb_np e) 5,
        n_pix6 := n_pix6 st + mask_count (cm_rgb_np e) 6,
        n_pix7 := n_pix7 st + mask_count (cm_rgb_np e) 7,
        printed := printed st @ prints_of (I1 e) @ prints_of (I2 e)\<rparr>"

text \<open>
  The class a single pixel decodes to: the arg-max of its one-hot row.  (A derived notion,
  used to state what \<open>decode_rgb\<close> computes pixel by pixel.)
\<close>

definition pixel_class :: "rgb \<Rightarrow> nat" where
  "pixel_class px = argmax (map (\<lambda>i. if map_of color_label_dict i = Some px then 1 else 0) [0..<8])"

section \<open>Concrete inputs\<close>

text \<open>A one-band image of 5 rows and 4 columns whose pixel value is its address.\<close>

definition c7_img :: "nat ndarray" where
  "c7_img = \<lparr>shape = [1, 5, 4], strides = [20, 4, 1], buf = (\<lambda>n. n)\<rparr>"

text \<open>
  A two-band image of 2 rows and 4 columns in the layout \<open>transpose(2, 0, 1)\<close> gives
  (the band stride is the smallest).
\<close>

definition c8_img :: "nat ndarray" where
  "c8_img = \<lparr>shape = [2, 2, 4], strides = [1, 8, 2], buf = (\<lambda>n. 10 * n)\<rparr>"

text \<open>A label image of one row whose second pixel has a colour outside the palette.\<close>

definition c4_img :: rgb_image where
  "c4_img = \<lparr>height = 1, width = 2, pixel = (\<lambda>r c. if c = 0 then (128, 0, 0) else (1, 2, 3))\<rparr>"

text \<open>A class mask of shape \<open>(1, 1, 2)\<close> with the labels 0 and 1.\<close>

definition c9_mask :: band_mask where
  "c9_mask = \<lparr>rows = 1, cols = 2, cls = (\<lambda>r c. int c)\<rparr>"

text \<open>
  A label image of 1024 by 1024 pixels in eight horizontal bands of 128 rows, band
  \<open>k\<close> in the colour of class \<open>k\<close>; an all-black one; and one-band rasters of 1024 by
  1024 and of 512 by 512 pixels whose pixel value is its own address.
\<close>

definition band_image :: rgb_image where
  "band_image = \<lparr>height = 1024, width = 1024, pixel = (\<lambda>r c. snd (color_label_dict ! (r div 128)))\<rparr>"

definition black_image :: rgb_image where
  "black_image = \<lparr>height = 1024, width = 1024, pixel = (\<lambda>r c. (0, 0, 0))\<rparr>"

definition raster_1024 :: "nat ndarray" where
  "raster_1024 = \<lparr>shape = [1024, 1024, 1], strides = [1024, 1, 1], buf = (\<lambda>n. n)\<rparr>"

definition raster_512 :: "nat ndarray" where
  "raster_512 = \<lparr>shape = [512, 512, 1], strides = [512, 1, 1], buf = (\<lambda>n. n)\<rparr>"

definition band_entry :: "nat entry" where
  "band_entry = \<lparr>I1 = raster_1024, I2 = raster_1024, cm_rgb_np = band_image\<rparr>"

definition band_entry_512 :: "nat entry" where
  "band_entry_512 = \<lparr>I1 = raster_512, I2 = raster_512, cm_rgb_np = band_image\<rparr>"

definition black_entry :: "nat entry" where
  "black_entry = \<lparr>I1 = raster_512, I2 = raster_512, cm_rgb_np = black_image\<rparr>"

definition small_entry :: "nat entry" where
  "small_entry = \<lparr>I1 = raster_512, I2 = raster_512, cm_rgb_np = c4_img\<rparr>"

text \<open>
  Inputs: a configuration file that does not parse; a location directory of two monthly
  rasters; and one of 24 rasters beside a file of another kind.  Both listings are in
  natural order already, so the natural sort returns them as they are.
\<close>

definition c3_fs :: "string \<Rightarrow> string option" where
  "c3_fs p = (if p = ''config.yml'' then Some ''dataset: ['' else None)"

definition c3_safe_load :: "string \<Rightarrow> string + (string \<times> string) list" where
  "c3_safe_load s = (if s = ''dataset: ['' then Inl ''while parsing a flow sequence'' else Inr [])"

definition c2_env :: "nat test_env" where
  "c2_env = \<lparr>listdir = (\<lambda>p. Inr [''2018-01-01.tif'', ''2018-02-01.tif'']),
             isfile = (\<lambda>p. False),
             imread = (\<lambda>p. Inr raster_512),
             natsorted = (\<lambda>xs. xs),
             znorm = (\<lambda>img v. v)\<rparr>"

definition frame_name :: "nat \<Rightarrow> string" where
  "frame_name i = replicate i CHR ''x'' @ ''-01.tif''"

definition c24_env :: "nat test_env" where
  "c24_env = \<lparr>listdir = (\<lambda>p. Inr (''readme.txt'' # map frame_name [0..<24])),
              isfile = (\<lambda>p. False),
              imread = (\<lambda>p. Inr raster_512),
              natsorted = (\<lambda>xs. xs),
              znorm = (\<lambda>img v. v)\<rparr>"

text \<open>
  \<open>s.endswith(sub)\<close>, the suffix test; and a location directory of 24 rasters beside one
  side file whose name contains \<open>-01.tif\<close> without ending in it, listed in natural
  order.
\<close>

definition ends_with :: "string \<Rightarrow> string \<Rightarrow> bool" where
  "ends_with sub s = (length sub \<le> length s \<and> drop (length s - length sub) s = sub)"

definition aux_listing :: "string list" where
  "aux_listing = map frame_name [0..<24] @ [frame_name 24 @ ''.aux.xml'']"

definition aux_env :: "nat test_env" where
  "aux_env = \<lparr>listdir = (\<lambda>p. Inr aux_listing),
              isfile = (\<lambda>p. False),
              imread = (\<lambda>p. Inr raster_512),
              natsorted = (\<lambda>xs. xs),
              znorm = (\<lambda>img v. v)\<rparr>"

section \<open>Addressing lemmas\<close>

lemma offset_c_strides_less:
  "list_all2 (<) idx sh \<Longrightarrow> offset_of idx (c_strides sh) < prod_list sh"
proof (induction idx sh rule: list_all2_induct)
  case Nil
  then show ?case by simp
next
  case (Cons i idx d sh)
  have "i * prod_list sh + offset_of idx (c_strides sh) < Suc i * prod_list sh"
    using Cons.IH by simp
  also have "\<dots> \<le> d * prod_list sh"
    using Cons.hyps(1) by (intro mult_le_mono1) simp
  finally show ?case by simp
qed

lemma unravel_offset:
  "list_all2 (<) idx sh \<Longrightarrow> unravel sh (offset_of idx (c_strides sh)) = idx"
proof (induction idx sh rule: list_all2_induct)
  case Nil
  then show ?case by simp
next
  case (Cons i idx d sh)
  have lt: "offset_of idx (c_strides sh) < prod_list sh"
    using Cons.hyps(2) by (rule offset_c_strides_less)
  then show ?case using Cons.IH by simp
qed

lemma item_fresh:
  "list_all2 (<) idx sh \<Longrightarrow> item (fresh sh g) idx = g idx"
  by (simp add: item_def fresh_def unravel_offset)

lemma div_mod_stride: "(r div t) * (s * t) + (r mod t) * s = r * (s::nat)"
proof -
  have "(r div t) * (s * t) + (r mod t) * s = (t * (r div t) + r mod t) * s"
    by (simp only: algebra_simps)
  then show ?thesis by (simp only: mult_div_mod_eq)
qed

lemma cut_image_strided_Inr:
  assumes "shape img = [B, H, W]" and "strides img = [s0, s1, s2]" and "0 < Ty" and "0 < Tx"
  shows "cut_image_strided img (Ty, Tx) =
           Inr (if W mod Tx \<noteq> 0 \<or> H mod Ty \<noteq> 0 then [patch_size_message] else [],
                \<lparr>shape = [H div Ty, W div Tx, B, Ty, Tx],
                 strides = [s1 * Ty, s2 * Tx, s0, s1, s2], buf = buf img\<rparr>)"
  using assms by (simp add: cut_image_strided_def)

lemma tile_index_bound:
  assumes "i < H div Ty" and "y < Ty"
  shows "i * Ty + y < (H div Ty) * (Ty::nat)"
proof -
  have "i * Ty + y < Suc i * Ty" using assms(2) by simp
  also have "\<dots> \<le> (H div Ty) * Ty" using assms(1) by (intro mult_le_mono1) simp
  finally show ?thesis .
qed

section \<open>Properties of the patch tiler\<close>

text \<open>
  C7.  For a three-axis array of shape \<open>(B, H, W)\<close> and a tile shape \<open>(Ty, Tx)\<close> with
  positive sides, \<open>cut_image_strided\<close> returns normally a view of shape
  \<open>(H div Ty, W div Tx, B, Ty, Tx)\<close>, so exactly \<open>(H div Ty) * (W div Tx)\<close> tiles.
  Element \<open>[i, j, b, y, x]\<close> of the view is element \<open>[b, i * Ty + y, j * Tx + x]\<close> of
  the source, which lies inside the first \<open>(H div Ty) * Ty\<close> rows and
  \<open>(W div Tx) * Tx\<close> columns: the trailing partial row and column are never read.
  The diagnostic is printed exactly when a side is not an exact multiple, and the
  function returns the view all the same.
\<close>

theorem cut_image_strided_tiles:
  assumes "shape img = [B, H, W]" and "length (strides img) = 3"
    and "0 < Ty" and "0 < Tx"
  shows "\<exists>printed t. cut_image_strided img (Ty, Tx) = Inr (printed, t)
           \<and> shape t = [H div Ty, W div Tx, B, Ty, Tx]
           \<and> (\<forall>i<H div Ty. \<forall>j<W div Tx. \<forall>b<B. \<forall>y<Ty. \<forall>x<Tx.
                 item t [i, j, b, y, x] = item img [b, i * Ty + y, j * Tx + x]
                 \<and> i * Ty + y < (H div Ty) * Ty \<and> j * Tx + x < (W div Tx) * Tx)
           \<and> (H div Ty) * Ty \<le> H \<and> (W div Tx) * Tx \<le> W
           \<and> printed = (if H mod Ty = 0 \<and> W mod Tx = 0 then [] else [patch_size_message])"
proof -
  obtain s0 s1 s2 where st: "strides img = [s0, s1, s2]"
    using assms(2) by (auto simp: length_Suc_conv numeral_3_eq_3)
  note res = cut_image_strided_Inr [OF assms(1) st assms(3) assms(4)]
  let ?t = "\<lparr>shape = [H div Ty, W div Tx, B, Ty, Tx],
             strides = [s1 * Ty, s2 * Tx, s0, s1, s2], buf = buf img\<rparr>"
  have el: "item ?t [i, j, b, y, x] = item img [b, i * Ty + y, j * Tx + x]" for i j b y x
    by (simp add: item_def st algebra_simps)
  show ?thesis
    unfolding res
    by (intro exI [of _ "if W mod Tx \<noteq> 0 \<or> H mod Ty \<noteq> 0 then [patch_size_message] else []"]
              exI [of _ ?t])
       (auto simp: el tile_index_bound)
qed

theorem cut_image_strided_tiles_witness:
  "\<exists>printed t. cut_image_strided c7_img (2, 2) = Inr (printed, t)
      \<and> shape t = [2, 2, 1, 2, 2] \<and> item t [1, 1, 0, 1, 0] = 14
      \<and> printed = [patch_size_message]"
proof -
  have sh: "shape c7_img = [1, 5, 4]" and st: "length (strides c7_img) = 3"
    by (simp_all add: c7_img_def)
  from cut_image_strided_tiles [OF sh st, of 2 2]
  obtain printed t where r: "cut_image_strided c7_img (2, 2) = Inr (printed, t)"
    and s: "shape t = [5 div 2, 4 div 2, 1, 2, 2]"
    and el: "\<forall>i<5 div 2. \<forall>j<4 div 2. \<forall>b<1. \<forall>y<2. \<forall>x<2.
                 item t [i, j, b, y, x] = item c7_img [b, i * 2 + y, j * 2 + x]
                 \<and> i * 2 + y < (5 div 2) * 2 \<and> j * 2 + x < (4 div 2) * 2"
    and p: "printed = (if (5::nat) mod 2 = 0 \<and> (4::nat) mod 2 = 0 then [] else [patch_size_message])"
    by auto
  from el have "item t [1, 1, 0, 1, 0] = item c7_img [0, 1 * 2 + 1, 1 * 2 + 0]"
    by simp
  then have "item t [1, 1, 0, 1, 0] = 14"
    by (simp add: item_def c7_img_def)
  with r s p show ?thesis by simp
qed

text \<open>
  C8.  When the height is an exact multiple of \<open>Ty\<close> and the width of \<open>Tx\<close>,
  \<open>cut_image_strided\<close> prints nothing, and putting every tile \<open>[i, j]\<close> back
  at its grid position gives the source array again, element for element.
\<close>

theorem cut_image_strided_reassemble:
  assumes "shape img = [B, H, W]" and "length (strides img) = 3"
    and "0 < Ty" and "0 < Tx" and "H mod Ty = 0" and "W mod Tx = 0"
  shows "\<exists>t. cut_image_strided img (Ty, Tx) = Inr ([], t) \<and> reassemble t = tolist3 img"
proof -
  obtain s0 s1 s2 where st: "strides img = [s0, s1, s2]"
    using assms(2) by (auto simp: length_Suc_conv numeral_3_eq_3)
  note res = cut_image_strided_Inr [OF assms(1) st assms(3) assms(4)]
  let ?t = "\<lparr>shape = [H div Ty, W div Tx, B, Ty, Tx],
             strides = [s1 * Ty, s2 * Tx, s0, s1, s2], buf = buf img\<rparr>"
  have el: "item ?t [r div Ty, c div Tx, b, r mod Ty, c mod Tx] = item img [b, r, c]" for r c b
  proof -
    have "offset_of [r div Ty, c div Tx, b, r mod Ty, c mod Tx] [s1 * Ty, s2 * Tx, s0, s1, s2]
            = (r div Ty * (s1 * Ty) + r mod Ty * s1) + (c div Tx * (s2 * Tx) + c mod Tx * s2) + b * s0"
      by simp
    also have "\<dots> = r * s1 + c * s2 + b * s0"
      by (simp only: div_mod_stride)
    also have "\<dots> = offset_of [b, r, c] [s0, s1, s2]"
      by simp
    finally show ?thesis
      by (simp add: item_def st del: offset_of.simps)
  qed
  have hy: "H div Ty * Ty = H" and wx: "W div Tx * Tx = W"
    using assms(5,6) by auto
  have "reassemble ?t = tolist3 img"
    by (simp add: reassemble_def tolist3_def el hy wx assms(1))
  then show ?thesis
    unfolding res using assms(5,6) by simp
qed

theorem cut_image_strided_reassemble_witness:
  "\<exists>t. cut_image_strided c8_img (1, 2) = Inr ([], t)
     \<and> reassemble t = [[[0, 20, 40, 60], [80, 100, 120, 140]], [[10, 30, 50, 70], [90, 110, 130, 150]]]"
proof -
  have sh: "shape c8_img = [2, 2, 4]" and st: "length (strides c8_img) = 3"
    by (simp_all add: c8_img_def)
  have tl: "tolist3 c8_img = [[[0, 20, 40, 60], [80, 100, 120, 140]], [[10, 30, 50, 70], [90, 110, 130, 150]]]"
    by (simp add: tolist3_def c8_img_def item_def upt_conv_Cons)
  from cut_image_strided_reassemble [OF sh st, of 1 2] show ?thesis
    by (simp add: tl)
qed

section \<open>Decoding and encoding of label masks\<close>

lemma upt8: "[0..<8] = [0, 1, 2, 3, 4, 5, 6, 7]"
  by (simp add: upt_conv_Cons)

lemma num_classes: "length color_label_dict = 8"
  by (simp add: color_label_dict_def)

lemma onehot_item:
  assumes "r < height rgb_arr" and "c < width rgb_arr" and "i < 8"
  shows "item (rgb_to_onehot rgb_arr) [r, c, i]
           = (if map_of color_label_dict i = Some (pixel rgb_arr r c) then 1 else 0)"
  using assms by (simp add: rgb_to_onehot_def num_classes item_fresh)

lemma decode_rgb_Inr:
  "decode_rgb rgb_arr =
     Inr (fresh [height rgb_arr, width rgb_arr]
            (\<lambda>idx. argmax (map (\<lambda>i. item (rgb_to_onehot rgb_arr) (idx @ [i])) [0..<8])))"
  by (simp add: decode_rgb_def argmax_axis2_def rgb_to_onehot_def num_classes fresh_def)

lemma decode_rgb_item:
  assumes "r < height rgb_arr" and "c < width rgb_arr"
  shows "\<exists>m. decode_rgb rgb_arr = Inr m \<and> shape m = [height rgb_arr, width rgb_arr]
            \<and> item m [r, c] = pixel_class (pixel rgb_arr r c)"
proof -
  let ?g = "\<lambda>idx. argmax (map (\<lambda>i. item (rgb_to_onehot rgb_arr) (idx @ [i])) [0..<8])"
  have row: "map (\<lambda>i. item (rgb_to_onehot rgb_arr) ([r, c] @ [i])) [0..<8]
          = map (\<lambda>i. if map_of color_label_dict i = Some (pixel rgb_arr r c) then 1 else 0) [0..<8]"
    using assms by (intro map_cong refl) (simp add: onehot_item)
  have "item (fresh [height rgb_arr, width rgb_arr] ?g) [r, c] = ?g [r, c]"
    using assms by (intro item_fresh) simp
  also have "\<dots> = pixel_class (pixel rgb_arr r c)"
    by (simp only: row pixel_class_def)
  finally have "item (fresh [height rgb_arr, width rgb_arr] ?g) [r, c] = pixel_class (pixel rgb_arr r c)" .
  moreover have "shape (fresh [height rgb_arr, width rgb_arr] ?g) = [height rgb_arr, width rgb_arr]"
    by (simp add: fresh_def)
  ultimately show ?thesis
    by (simp only: decode_rgb_Inr) blast
qed

lemma pixel_class_unmatched:
  assumes "px \<notin> snd ` set color_label_dict"
  shows "pixel_class px = 0"
  using assms by (auto simp: pixel_class_def upt8 color_label_dict_def argmax_def)

lemma pixel_class_palette:
  assumes "map_of color_label_dict k = Some px"
  shows "pixel_class px = k"
proof -
  from assms have "k < 8"
    by (auto simp: color_label_dict_def split: if_splits)
  then consider "k = 0" | "k = 1" | "k = 2" | "k = 3" | "k = 4" | "k = 5" | "k = 6" | "k = 7"
    by linarith
  then show ?thesis
    using assms
    by cases (auto simp: pixel_class_def upt8 color_label_dict_def argmax_def)
qed

text \<open>
  C4.  For every RGB image and every pixel of it whose triple is no entry of the palette,
  the decoding (\<open>rgb_to_onehot\<close>, then arg-max over the class axis) returns normally
  and gives that pixel class 0: its one-hot row is all zero, and the arg-max of equal
  values is the first index.
\<close>

theorem unmatched_pixel_decodes_to_class0:
  assumes "r < height rgb_arr" and "c < width rgb_arr"
    and "pixel rgb_arr r c \<notin> snd ` set color_label_dict"
  shows "\<exists>m. decode_rgb rgb_arr = Inr m \<and> item m [r, c] = 0"
proof -
  from decode_rgb_item [OF assms(1,2)] obtain m where
    "decode_rgb rgb_arr = Inr m" and "item m [r, c] = pixel_class (pixel rgb_arr r c)"
    by blast
  then show ?thesis
    using pixel_class_unmatched [OF assms(3)] by simp
qed

theorem unmatched_pixel_decodes_to_class0_witness:
  "\<exists>m. decode_rgb c4_img = Inr m \<and> item m [0, 1] = 0"
  using unmatched_pixel_decodes_to_class0 [of 0 c4_img 1]
  by (simp add: c4_img_def color_label_dict_def)

text \<open>
  Encoding with \<open>mask2rgb\<close> raises exactly on a mask of one row and several columns.
  On every other mask of labels in 0..7 the round trip through the palette gives each
  pixel its label back.
\<close>

lemma mask2rgb_error_iff:
  "mask2rgb uninit msk = Inl e \<longleftrightarrow> e = IndexError \<and> rows msk = 1 \<and> cols msk \<noteq> 1"
  by (auto simp: mask2rgb_def squeeze_shape_def bool_index_ok_def color_label_dict_def)

lemma mask2rgb_pixel:
  assumes "mask2rgb uninit msk = Inr rgb_arr" and "map_of color_label_dict k = Some pv"
    and "cls msk r c = int k"
  shows "pixel rgb_arr r c = pv"
proof -
  from assms(2) have "k < 8"
    by (auto simp: color_label_dict_def split: if_splits)
  then consider "k = 0" | "k = 1" | "k = 2" | "k = 3" | "k = 4" | "k = 5" | "k = 6" | "k = 7"
    by linarith
  then show ?thesis
    using assms
    by cases (auto simp: mask2rgb_def color_label_dict_def split: if_splits)
qed

lemma palette_defined:
  assumes "k < 8"
  shows "\<exists>pv. map_of color_label_dict k = Some pv"
proof -
  from assms consider "k = 0" | "k = 1" | "k = 2" | "k = 3" | "k = 4" | "k = 5" | "k = 6" | "k = 7"
    by linarith
  then show ?thesis
    by cases (simp_all add: color_label_dict_def)
qed

lemma mask2rgb_decode_roundtrip:
  assumes "rows msk \<noteq> 1 \<or> cols msk = 1" and "r < rows msk" and "c < cols msk"
    and "cls msk r c = int k" and "k < 8"
  shows "\<exists>rgb_arr m. mask2rgb uninit msk = Inr rgb_arr \<and> decode_rgb rgb_arr = Inr m
            \<and> item m [r, c] = k"
proof -
  obtain rgb_arr where enc: "mask2rgb uninit msk = Inr rgb_arr"
    using assms(1) mask2rgb_error_iff [of uninit msk] by (cases "mask2rgb uninit msk") auto
  then have dims: "height rgb_arr = rows msk" "width rgb_arr = cols msk"
    by (auto simp: mask2rgb_def split: if_splits)
  obtain pv where pv: "map_of color_label_dict k = Some pv"
    using palette_defined [OF assms(5)] by blast
  have px: "pixel rgb_arr r c = pv"
    using enc pv assms(4) by (rule mask2rgb_pixel)
  from decode_rgb_item [of r rgb_arr c] obtain m where
    "decode_rgb rgb_arr = Inr m" and "item m [r, c] = pixel_class (pixel rgb_arr r c)"
    using assms(2,3) dims by auto
  then show ?thesis
    using enc px pixel_class_palette [OF pv] by simp
qed

text \<open>
  C9.  The round trip through the palette fails on a mask of shape \<open>(1, 1, 2)\<close>:
  \<open>np.squeeze\<close> drops the row axis with the band axis, the boolean index of length 2
  does not fit the first axis of \<open>maskRGB\<close> (length 1), and \<open>mask2rgb\<close> raises
  \<open>IndexError\<close> before anything is decoded.
\<close>

theorem mask2rgb_single_row_raises:
  "mask2rgb uninit c9_mask = Inl IndexError"
  by (simp add: mask2rgb_def c9_mask_def squeeze_shape_def bool_index_ok_def color_label_dict_def)

section \<open>The training loop in closed form\<close>

lemma item_subarray:
  "item (subarray a p) idx = buf a (offset_of (p # idx) (strides a))" if "strides a \<noteq> []"
  using that by (cases "strides a") (simp_all add: item_def subarray_def)

lemma image_patches_Inr:
  assumes "shape img = [H, W, B]" and "strides img = [s0, s1, s2]"
  shows "image_patches img =
     Inr (if W mod 256 \<noteq> 0 \<or> H mod 256 \<noteq> 0 then [patch_size_message] else [],
          map (subarray
                 \<lparr>shape = [(H div 256) * (W div 256), B, 256, 256],
                  strides = c_strides [(H div 256) * (W div 256), B, 256, 256],
                  buf = (\<lambda>f. item \<lparr>shape = [H div 256, W div 256, B, 256, 256],
                                     strides = [s0 * 256, s1 * 256, s2, s0, s1], buf = buf img\<rparr>
                                  (unravel [H div 256, W div 256, B, 256, 256] f))\<rparr>)
            [0..<(H div 256) * (W div 256)])"
proof -
  have tr: "transpose_201 img = Inr \<lparr>shape = [B, H, W], strides = [s2, s0, s1], buf = buf img\<rparr>"
    by (simp add: transpose_201_def assms)
  have cut: "cut_image_strided \<lparr>shape = [B, H, W], strides = [s2, s0, s1], buf = buf img\<rparr> (256, 256)
      = Inr (if W mod 256 \<noteq> 0 \<or> H mod 256 \<noteq> 0 then [patch_size_message] else [],
             \<lparr>shape = [H div 256, W div 256, B, 256, 256],
              strides = [s0 * 256, s1 * 256, s2, s0, s1], buf = buf img\<rparr>)"
    using cut_image_strided_Inr
            [of "\<lparr>shape = [B, H, W], strides = [s2, s0, s1], buf = buf img\<rparr>" B H W s2 s0 s1 256 256]
    by simp
  show ?thesis
    by (simp add: image_patches_def tr cut bind_err_def reshape_def mult.assoc)
qed

lemma image_patches_error:
  assumes "length (shape img) \<noteq> 3 \<or> length (strides img) \<noteq> 3"
  shows "image_patches img = Inl ValueError"
  using assms
  by (auto simp: image_patches_def transpose_201_def bind_err_def split: list.splits)

lemma merge_grid_offset:
  assumes "p < ny * nx" and "b < B" and "y < ty" and "x < tx"
  shows "unravel [ny, nx, B, ty, tx] (offset_of [p, b, y, x] (c_strides [ny * nx, B, ty, tx]))
           = [p div nx, p mod nx, b, y, x]"
proof -
  have nx: "0 < nx" using assms(1) by (cases nx) auto
  have dm: "p div nx * (nx * S) + p mod nx * S = p * S" for S :: nat
    using div_mod_stride [of p nx S] by (simp add: mult.commute)
  have "offset_of [p div nx, p mod nx, b, y, x] (c_strides [ny, nx, B, ty, tx])
          = (p div nx * (nx * (B * (ty * tx))) + p mod nx * (B * (ty * tx))) + b * (ty * tx) + y * tx + x"
    by simp
  also have "\<dots> = p * (B * (ty * tx)) + b * (ty * tx) + y * tx + x"
    by (simp only: dm)
  also have "\<dots> = offset_of [p, b, y, x] (c_strides [ny * nx, B, ty, tx])"
    by simp
  finally have eq: "offset_of [p, b, y, x] (c_strides [ny * nx, B, ty, tx])
          = offset_of [p div nx, p mod nx, b, y, x] (c_strides [ny, nx, B, ty, tx])"
    by (rule sym)
  have "p div nx < ny"
    using assms(1) by (simp add: less_mult_imp_div_less)
  then have "list_all2 (<) [p div nx, p mod nx, b, y, x] [ny, nx, B, ty, tx]"
    using assms nx by simp
  then show ?thesis
    unfolding eq by (rule unravel_offset)
qed

lemma image_patch_item:
  assumes "shape img = [H, W, B]" and "length (strides img) = 3"
    and "p < (H div 256) * (W div 256)" and "b < B" and "y < 256" and "x < 256"
  shows "item (patches_of img ! p) [b, y, x]
           = item img [(p div (W div 256)) * 256 + y, (p mod (W div 256)) * 256 + x, b]"
proof -
  obtain s0 s1 s2 where st: "strides img = [s0, s1, s2]"
    using assms(2) by (auto simp: length_Suc_conv numeral_3_eq_3)
  let ?V = "\<lparr>shape = [H div 256, W div 256, B, 256, 256],
             strides = [s0 * 256, s1 * 256, s2, s0, s1], buf = buf img\<rparr>"
  let ?R = "\<lparr>shape = [(H div 256) * (W div 256), B, 256, 256],
             strides = c_strides [(H div 256) * (W div 256), B, 256, 256],
             buf = (\<lambda>f. item ?V (unravel [H div 256, W div 256, B, 256, 256] f))\<rparr>"
  have ps: "patches_of img ! p = subarray ?R p"
    using assms(3) by (simp add: patches_of_def image_patches_Inr [OF assms(1) st])
  have "item (subarray ?R p) [b, y, x]
          = item ?V (unravel [H div 256, W div 256, B, 256, 256]
                       (offset_of [p, b, y, x] (c_strides [(H div 256) * (W div 256), B, 256, 256])))"
    by (subst item_subarray) simp_all
  also have "\<dots> = item ?V [p div (W div 256), p mod (W div 256), b, y, x]"
    using assms(3-6) by (simp only: merge_grid_offset)
  also have "\<dots> = item img [(p div (W div 256)) * 256 + y, (p mod (W div 256)) * 256 + x, b]"
    by (simp add: item_def st algebra_simps)
  finally show ?thesis
    by (simp only: ps)
qed

lemma patches_of_length:
  assumes "shape img = [H, W, B]" and "length (strides img) = 3"
  shows "length (patches_of img) = (H div 256) * (W div 256)"
proof -
  obtain s0 s1 s2 where st: "strides img = [s0, s1, s2]"
    using assms(2) by (auto simp: length_Suc_conv numeral_3_eq_3)
  show ?thesis
    by (simp add: patches_of_def image_patches_Inr [OF assms(1) st])
qed


lemma shape_fresh: "shape (fresh sh g) = sh"
  by (simp add: fresh_def)

lemma decode_rgb_shape: "decode_rgb cm = Inr m \<Longrightarrow> shape m = [height cm, width cm]"
  by (auto simp: decode_rgb_Inr shape_fresh)

lemma decode_rgb_cell:
  assumes "decode_rgb cm = Inr m" and "r < height cm" and "c < width cm"
  shows "item m [r, c] = pixel_class (pixel cm r c)"
  using decode_rgb_item [OF assms(2,3)] assms(1) by auto

lemma label_reshape:
  assumes "decode_rgb cm = Inr m"
  shows "reshape m [16, 256, 256] =
           (if height cm * width cm \<noteq> 1048576 then Inl ValueError
            else Inr \<lparr>shape = [16, 256, 256], strides = [65536, 256, 1],
                      buf = (\<lambda>f. item m (unravel [height cm, width cm] f))\<rparr>)"
  by (simp add: reshape_def decode_rgb_shape [OF assms])

lemma label_patches_eq:
  assumes "decode_rgb cm = Inr m" and "height cm * width cm = 1048576"
  shows "label_patches cm =
           map (subarray \<lparr>shape = [16, 256, 256], strides = [65536, 256, 1],
                          buf = (\<lambda>f. item m (unravel [height cm, width cm] f))\<rparr>) [0..<16]"
  by (simp add: label_patches_def bind_err_def assms label_reshape [OF assms(1)])

lemma label_patches_length:
  "length (label_patches cm) = (if height cm * width cm = 1048576 then 16 else 0)"
proof -
  obtain m where m: "decode_rgb cm = Inr m"
    by (simp add: decode_rgb_Inr)
  show ?thesis
    by (simp add: label_patches_def bind_err_def m label_reshape [OF m])
qed

lemma label_patch_item:
  assumes "height cm * width cm = 1048576" and "p < 16" and "y < 256" and "x < 256"
  shows "item (label_patches cm ! p) [y, x]
           = pixel_class (pixel cm ((p * 65536 + y * 256 + x) div width cm)
                                   ((p * 65536 + y * 256 + x) mod width cm))"
proof -
  obtain m where m: "decode_rgb cm = Inr m"
    by (simp add: decode_rgb_Inr)
  let ?f = "p * 65536 + y * 256 + x"
  have f: "?f < height cm * width cm"
    using assms by simp
  have w: "0 < width cm"
    using assms(1) by (cases "width cm") auto
  have r: "?f div width cm < height cm"
    using f by (simp add: less_mult_imp_div_less)
  have c: "?f mod width cm < width cm"
    using w by simp
  have "item (label_patches cm ! p) [y, x] = item m (unravel [height cm, width cm] ?f)"
    using assms(2) by (simp add: label_patches_eq [OF m assms(1)] item_subarray add.assoc)
  also have "\<dots> = item m [?f div width cm, ?f mod width cm]"
    by simp
  also have "\<dots> = pixel_class (pixel cm (?f div width cm) (?f mod width cm))"
    using m r c by (rule decode_rgb_cell)
  finally show ?thesis .
qed

lemma train_file_step:
  "train_file e st =
     (if mask_size e \<noteq> 1048576 then Inl ValueError
      else case image_patches (I1 e) of
             Inl x \<Rightarrow> Inl x
           | Inr r1 \<Rightarrow> (case image_patches (I2 e) of Inl x \<Rightarrow> Inl x | Inr r2 \<Rightarrow> Inr (step e st)))"
proof -
  obtain m where m: "decode_rgb (cm_rgb_np e) = Inr m"
    by (simp add: decode_rgb_Inr)
  show ?thesis
    by (simp add: train_file_def m bind_err_def label_reshape [OF m] compute_for_INS_weights_def
          step_def label_patches_def patches_of_def prints_of_def mask_count_def mask_size_def
        split: sum.splits prod.splits)
qed

lemma train_file_Inr_iff:
  "train_file e st = Inr st' \<longleftrightarrow> entry_ok e \<and> st' = step e st"
  by (auto simp: train_file_step entry_ok_def split: sum.splits if_splits)

lemma train_files_Inr_iff:
  "train_files es st = Inr st' \<longleftrightarrow> (\<forall>e\<in>set es. entry_ok e) \<and> st' = fold step es st"
proof (induction es arbitrary: st)
  case Nil
  then show ?case by auto
next
  case (Cons e es)
  show ?case
  proof (cases "train_file e st")
    case (Inl x)
    then have "\<not> entry_ok e"
      using train_file_Inr_iff [of e st] by auto
    with Inl show ?thesis by (simp add: bind_err_def)
  next
    case (Inr st1)
    then have "entry_ok e" and "st1 = step e st"
      using train_file_Inr_iff [of e st st1] by auto
    with Inr Cons.IH [of st1] show ?thesis by (simp add: bind_err_def)
  qed
qed

lemma train_files_append:
  "train_files (xs @ ys) st = bind_err (train_files xs st) (train_files ys)"
proof (induction xs arbitrary: st)
  case Nil
  then show ?case by (simp add: bind_err_def)
next
  case (Cons x xs)
  then show ?case by (cases "train_file x st") (simp_all add: bind_err_def)
qed

lemma train_folders_concat:
  "train_folders folders st = train_files (concat folders) st"
proof (induction folders arbitrary: st)
  case Nil
  then show ?case by simp
next
  case (Cons f fs)
  then show ?case
    by (cases "train_files f st") (simp_all add: train_files_append bind_err_def)
qed

lemma labels_fold_step:
  "labels (fold step es st) = labels st @ concat (map (\<lambda>e. label_patches (cm_rgb_np e)) es)"
  by (induction es arbitrary: st) (simp_all add: step_def)

lemma imgs_1_fold_step:
  "imgs_1 (fold step es st) = imgs_1 st @ concat (map (\<lambda>e. patches_of (I1 e)) es)"
  by (induction es arbitrary: st) (simp_all add: step_def)

lemma imgs_2_fold_step:
  "imgs_2 (fold step es st) = imgs_2 st @ concat (map (\<lambda>e. patches_of (I2 e)) es)"
  by (induction es arbitrary: st) (simp_all add: step_def)

lemma counts_fold_step:
  "counts (fold step es st)
     = map (\<lambda>k. counts st ! k + sum_list (map (\<lambda>e. mask_count (cm_rgb_np e) k) es)) [0..<8]"
proof (induction es arbitrary: st)
  case Nil
  then show ?case by (simp add: counts_def upt8)
next
  case (Cons e es)
  have "counts (step e st) = map (\<lambda>k. counts st ! k + mask_count (cm_rgb_np e) k) [0..<8]"
    by (simp add: counts_def step_def upt8)
  then show ?case
    using Cons.IH [of "step e st"] by (simp add: upt8)
qed

section \<open>The weights\<close>

lemma all_less8:
  "(\<forall>k<8. Q k) \<longleftrightarrow> Q (0::nat) \<and> Q 1 \<and> Q 2 \<and> Q 3 \<and> Q 4 \<and> Q 5 \<and> Q 6 \<and> Q 7"
proof
  assume "\<forall>k<8. Q k"
  then show "Q 0 \<and> Q 1 \<and> Q 2 \<and> Q 3 \<and> Q 4 \<and> Q 5 \<and> Q 6 \<and> Q 7"
    by simp
next
  assume h: "Q 0 \<and> Q 1 \<and> Q 2 \<and> Q 3 \<and> Q 4 \<and> Q 5 \<and> Q 6 \<and> Q 7"
  show "\<forall>k<8. Q k"
  proof (intro allI impI)
    fix k :: nat
    assume "k < 8"
    then consider "k = 0" | "k = 1" | "k = 2" | "k = 3" | "k = 4" | "k = 5" | "k = 6" | "k = 7"
      by linarith
    then show "Q k"
      using h by cases simp_all
  qed
qed

lemma ex_less8:
  "(\<exists>k<8. P k) \<longleftrightarrow> P (0::nat) \<or> P 1 \<or> P 2 \<or> P 3 \<or> P 4 \<or> P 5 \<or> P 6 \<or> P 7"
proof -
  have "(\<exists>k<8. P k) \<longleftrightarrow> \<not> (\<forall>k<8. \<not> P k)"
    by blast
  also have "\<dots> \<longleftrightarrow> P 0 \<or> P 1 \<or> P 2 \<or> P 3 \<or> P 4 \<or> P 5 \<or> P 6 \<or> P 7"
    by (simp only: all_less8 de_Morgan_conj not_not)
  finally show ?thesis .
qed

lemma counts_after_loops:
  assumes "train_folders corpus initial_state = Inr st"
  shows "counts st = map (total_count corpus) [0..<8]"
proof -
  from assms have st: "st = fold step (concat corpus) initial_state"
    by (simp add: train_folders_concat train_files_Inr_iff)
  show ?thesis
    unfolding st counts_fold_step
    by (simp add: upt8 counts_def initial_state_def total_count_def)
qed

lemma init_train_after_loops:
  assumes "train_folders corpus initial_state = Inr st"
  shows "init_train corpus =
     (if \<exists>k<8. total_count corpus k = 0 then Inl ZeroDivisionError
      else Inr \<lparr>imgs_1 = imgs_1 st, imgs_2 = imgs_2 st, labels = labels st, train = True,
                weights = Some (map (\<lambda>k. 1 / of_nat (total_count corpus k)) [0..<8])\<rparr>)"
proof -
  have c: "[n_pix0 st, n_pix1 st, n_pix2 st, n_pix3 st, n_pix4 st, n_pix5 st, n_pix6 st, n_pix7 st]
             = map (total_count corpus) [0..<8]"
    using counts_after_loops [OF assms] by (simp add: counts_def)
  then have n: "n_pix0 st = total_count corpus 0" "n_pix1 st = total_count corpus 1"
    "n_pix2 st = total_count corpus 2" "n_pix3 st = total_count corpus 3"
    "n_pix4 st = total_count corpus 4" "n_pix5 st = total_count corpus 5"
    "n_pix6 st = total_count corpus 6" "n_pix7 st = total_count corpus 7"
    by (simp_all add: upt8)
  show ?thesis
    by (simp add: init_train_def assms bind_err_def py_truediv_def n ex_less8 upt8)
qed

lemma init_train_loop_error:
  assumes "train_folders corpus initial_state = Inl x"
  shows "init_train corpus = Inl x"
  by (simp add: init_train_def assms bind_err_def)

section \<open>Pixel counts of label images\<close>

lemma mask_count_eq:
  "mask_count cm k =
     length (filter (\<lambda>f. pixel_class (pixel cm (f div width cm) (f mod width cm)) = k)
               [0..<height cm * width cm])"
proof -
  obtain m where m: "decode_rgb cm = Inr m"
    by (simp add: decode_rgb_Inr)
  have cell: "item m [f div width cm, f mod width cm]
                = pixel_class (pixel cm (f div width cm) (f mod width cm))"
    if "f < height cm * width cm" for f
  proof -
    have w: "0 < width cm"
      using that by (cases "width cm") auto
    have "f div width cm < height cm"
      using that by (simp add: less_mult_imp_div_less)
    moreover have "f mod width cm < width cm"
      using w by simp
    ultimately show ?thesis
      by (rule decode_rgb_cell [OF m])
  qed
  have "ravel m = map (\<lambda>f. pixel_class (pixel cm (f div width cm) (f mod width cm)))
                    [0..<height cm * width cm]"
    unfolding ravel_def decode_rgb_shape [OF m]
    by (rule map_cong) (simp_all add: cell)
  then show ?thesis
    by (simp add: mask_count_def m count_nonzero_eq_def filter_map comp_def)
qed

lemma count_div_eq:
  "length (filter (\<lambda>f. f div m = k) [0..<n * m]) = (if k < n then m else 0)"
proof (induction n)
  case 0
  then show ?case by simp
next
  case (Suc n)
  have split: "[0..<Suc n * m] = [0..<n * m] @ [n * m..<n * m + m]"
    using upt_add_eq_append [of 0 "n * m" m] by (simp add: add.commute)
  have blk: "filter (\<lambda>f. f div m = k) [n * m..<n * m + m] = (if k = n then [n * m..<n * m + m] else [])"
  proof -
    have "f div m = n" if "f \<in> set [n * m..<n * m + m]" for f
    proof -
      from that have "n * m \<le> f" and "f < n * m + m" by simp_all
      then show ?thesis
        by (intro div_nat_eqI) (simp_all add: mult.commute)
    qed
    then have "filter (\<lambda>f. f div m = k) [n * m..<n * m + m] = filter (\<lambda>f. n = k) [n * m..<n * m + m]"
      by (intro filter_cong refl) simp
    then show ?thesis by auto
  qed
  show ?case
    unfolding split using Suc.IH by (auto simp: blk)
qed

lemma palette_nth:
  assumes "k < 8"
  shows "map_of color_label_dict k = Some (snd (color_label_dict ! k))"
proof -
  from assms consider "k = 0" | "k = 1" | "k = 2" | "k = 3" | "k = 4" | "k = 5" | "k = 6" | "k = 7"
    by linarith
  then show ?thesis
    by cases (simp_all add: color_label_dict_def)
qed

lemma count_bands:
  "length (filter (\<lambda>f. f div 131072 = k) [0..<1048576]) = (if k < 8 then 131072 else 0)"
proof -
  have "(8::nat) * 131072 = 1048576" by simp
  then show ?thesis
    using count_div_eq [of 131072 k 8] by (simp only:)
qed

lemma band_pixel_class:
  assumes "f < 1048576"
  shows "pixel_class (snd (color_label_dict ! (f div 1024 div 128))) = f div 131072"
proof -
  have d: "f div 1024 div 128 = f div 131072"
    by (simp add: div_mult2_eq [symmetric])
  from assms have "f div 131072 < 8"
    by (simp add: less_mult_imp_div_less)
  then show ?thesis
    unfolding d by (intro pixel_class_palette palette_nth)
qed

lemma mask_count_band_image:
  "mask_count band_image k = (if k < 8 then 131072 else 0)"
proof -
  have sz: "height band_image * width band_image = 1048576"
    by (simp add: band_image_def)
  have "filter (\<lambda>f. pixel_class (pixel band_image (f div width band_image) (f mod width band_image)) = k)
          [0..<1048576]
        = filter (\<lambda>f. f div 131072 = k) [0..<1048576]"
    by (rule filter_cong) (simp_all add: band_image_def band_pixel_class)
  then show ?thesis
    by (simp only: mask_count_eq sz count_bands)
qed

lemma mask_count_black_image:
  "mask_count black_image k = (if k = 0 then 1048576 else 0)"
proof -
  have sz: "height black_image * width black_image = 1048576"
    by (simp add: black_image_def)
  have p0: "pixel_class (0, 0, 0) = 0"
    by (rule pixel_class_palette) (simp add: color_label_dict_def)
  have "filter (\<lambda>f. pixel_class (pixel black_image (f div width black_image) (f mod width black_image)) = k)
          [0..<1048576]
        = (if k = 0 then [0..<1048576] else [])"
    by (auto simp: black_image_def p0)
  then show ?thesis
    by (simp only: mask_count_eq sz) simp
qed

section \<open>Concrete corpora\<close>

lemma image_patches_raster_512: "\<not> isl (image_patches raster_512)"
  using image_patches_Inr [of raster_512 512 512 1 512 1 1] by (simp add: raster_512_def)

lemma image_patches_raster_1024: "\<not> isl (image_patches raster_1024)"
  using image_patches_Inr [of raster_1024 1024 1024 1 1024 1 1] by (simp add: raster_1024_def)

lemma entry_ok_band_entry: "entry_ok band_entry"
  by (simp add: entry_ok_def band_entry_def mask_size_def band_image_def image_patches_raster_1024)

lemma entry_ok_band_entry_512: "entry_ok band_entry_512"
  by (simp add: entry_ok_def band_entry_512_def mask_size_def band_image_def image_patches_raster_512)

lemma entry_ok_black_entry: "entry_ok black_entry"
  by (simp add: entry_ok_def black_entry_def mask_size_def black_image_def image_patches_raster_512)

lemma train_folders_band:
  "train_folders [[band_entry]] initial_state = Inr (step band_entry initial_state)"
  using train_files_Inr_iff [of "[band_entry]" initial_state "step band_entry initial_state"]
  by (simp add: train_folders_concat entry_ok_band_entry del: train_files.simps)

lemma train_folders_black:
  "train_folders [[black_entry]] initial_state = Inr (step black_entry initial_state)"
  using train_files_Inr_iff [of "[black_entry]" initial_state "step black_entry initial_state"]
  by (simp add: train_folders_concat entry_ok_black_entry del: train_files.simps)

lemma total_count_band: "total_count [[band_entry]] k = (if k < 8 then 131072 else 0)"
  by (simp add: total_count_def band_entry_def mask_count_band_image)

lemma total_count_black: "total_count [[black_entry]] k = (if k = 0 then 1048576 else 0)"
  by (simp add: total_count_def black_entry_def mask_count_black_image)

lemma init_train_band:
  "\<exists>ds. init_train [[band_entry]] = Inr ds
      \<and> labels ds = label_patches band_image \<and> imgs_1 ds = patches_of raster_1024"
proof -
  have nz: "\<not> (\<exists>k<8. total_count [[band_entry]] k = 0)"
    by (simp add: total_count_band)
  note eq = init_train_after_loops [OF train_folders_band]
  show ?thesis
    unfolding eq using nz
    by (simp add: step_def initial_state_def band_entry_def)
qed

section \<open>Properties of the weights\<close>

text \<open>
  C5.  When the training-mode constructor returns a dataset, its weight table has eight
  entries and the entry of every class \<open>k\<close> in 0..7 is \<open>1 / total_count k\<close>, where
  \<open>total_count k\<close> is the sum over all label masks of the corpus of the number of
  pixels of class \<open>k\<close>; every such total is positive then.  The quotient is the exact
  rational; Python stores its nearest floating-point number.
\<close>

theorem weights_are_inverse_counts:
  assumes "init_train corpus = Inr ds" and "k < 8"
  shows "\<exists>ws. weights ds = Some ws \<and> length ws = 8
            \<and> ws ! k = 1 / of_nat (total_count corpus k) \<and> 0 < total_count corpus k"
proof (cases "train_folders corpus initial_state")
  case (Inl x)
  then show ?thesis
    using assms(1) by (simp add: init_train_loop_error)
next
  case (Inr st)
  note eq = init_train_after_loops [OF Inr]
  from assms(1) have nz: "\<not> (\<exists>k<8. total_count corpus k = 0)"
    unfolding eq by (auto split: if_splits)
  with assms(1) have "weights ds = Some (map (\<lambda>k. 1 / of_nat (total_count corpus k)) [0..<8])"
    unfolding eq by (auto split: if_splits)
  moreover have "0 < total_count corpus k"
    using nz assms(2) by auto
  ultimately show ?thesis
    using assms(2) by simp
qed

theorem weights_are_inverse_counts_witness:
  "\<exists>ds ws. init_train [[band_entry]] = Inr ds \<and> weights ds = Some ws \<and> length ws = 8
      \<and> ws ! 3 = 1 / 131072"
proof -
  obtain ds where ds: "init_train [[band_entry]] = Inr ds"
    using init_train_band by blast
  have "(3::nat) < 8" by simp
  from weights_are_inverse_counts [OF ds this] ds show ?thesis
    by (simp add: total_count_band)
qed

text \<open>
  C6.  When some class \<open>k\<close> in 0..7 has no pixel in any label mask of the corpus, the
  training-mode constructor returns no dataset: it raises.  When the loops over the
  corpus complete, what it raises is the \<open>ZeroDivisionError\<close> of the weight
  computation; nothing catches it.
\<close>

theorem zero_count_class_raises:
  assumes "k < 8" and "total_count corpus k = 0"
  shows "(\<exists>err. init_train corpus = Inl err)
     \<and> (\<forall>st. train_folders corpus initial_state = Inr st \<longrightarrow> init_train corpus = Inl ZeroDivisionError)"
proof (cases "train_folders corpus initial_state")
  case (Inl x)
  then show ?thesis
    by (simp add: init_train_loop_error)
next
  case (Inr st)
  have "\<exists>k<8. total_count corpus k = 0"
    using assms by blast
  then have "init_train corpus = Inl ZeroDivisionError"
    by (simp only: init_train_after_loops [OF Inr] if_True)
  with Inr show ?thesis by simp
qed

theorem zero_count_class_raises_witness:
  "total_count [[black_entry]] 1 = 0 \<and> init_train [[black_entry]] = Inl ZeroDivisionError"
proof -
  have k: "(1::nat) < 8" by simp
  have z: "total_count [[black_entry]] 1 = 0"
    by (simp add: total_count_black)
  from zero_count_class_raises [OF k z] train_folders_black z show ?thesis
    by simp
qed

section \<open>Label patches\<close>

lemma label_patches_total_length:
  assumes "\<forall>e\<in>set es. mask_size e = 1048576"
  shows "length (concat (map (\<lambda>e. label_patches (cm_rgb_np e)) es)) = 16 * length es"
  using assms
  by (induction es) (simp_all add: label_patches_length mask_size_def)

lemma image_patches_strides:
  assumes "\<not> isl (image_patches img)"
  shows "length (shape img) = 3 \<and> length (strides img) = 3"
proof (rule ccontr)
  assume "\<not> (length (shape img) = 3 \<and> length (strides img) = 3)"
  then have "image_patches img = Inl ValueError"
    by (intro image_patches_error) blast
  with assms show False by simp
qed

text \<open>
  C10.  The label chunking is the fixed \<open>reshape(16, 256, 256)\<close>.  An iteration of the
  training loop on a label mask of any size but 16 * 256 * 256 = 1048576 pixels raises the
  \<open>ValueError\<close> of the reshape, and a corpus holding such a mask has no dataset.  An
  iteration that returns had a mask of exactly that size and appended exactly 16 label
  patches, whatever the number \<open>(H div 256) * (W div 256)\<close> of patches the tiler
  appended for the raster; a constructed dataset holds 16 label patches per label file.
\<close>

theorem label_tiling_fixed_reshape:
  "(mask_size e \<noteq> 1048576 \<longrightarrow> train_file e st = Inl ValueError)
   \<and> (\<forall>st'. train_file e st = Inr st' \<longrightarrow>
          mask_size e = 1048576 \<and> length (labels st') = length (labels st) + 16
          \<and> (\<forall>H W B. shape (I1 e) = [H, W, B] \<longrightarrow>
                length (imgs_1 st') = length (imgs_1 st) + (H div 256) * (W div 256)))
   \<and> (e \<in> set (concat corpus) \<and> mask_size e \<noteq> 1048576 \<longrightarrow> (\<exists>err. init_train corpus = Inl err))
   \<and> (\<forall>ds. init_train corpus = Inr ds \<longrightarrow> length (labels ds) = 16 * length (concat corpus))"
proof (intro conjI allI impI)
  assume "mask_size e \<noteq> 1048576"
  then show "train_file e st = Inl ValueError"
    by (simp add: train_file_step)
next
  fix st'
  assume r: "train_file e st = Inr st'"
  then show "mask_size e = 1048576"
    by (simp add: train_file_Inr_iff entry_ok_def)
  from r have ok: "entry_ok e" and st': "st' = step e st"
    by (simp_all add: train_file_Inr_iff)
  from ok show "length (labels st') = length (labels st) + 16"
    by (simp add: st' step_def label_patches_length entry_ok_def mask_size_def)
  fix H W B
  assume sh: "shape (I1 e) = [H, W, B]"
  have "length (strides (I1 e)) = 3"
    using ok image_patches_strides [of "I1 e"] by (simp add: entry_ok_def)
  then show "length (imgs_1 st') = length (imgs_1 st) + (H div 256) * (W div 256)"
    by (simp add: st' step_def patches_of_length [OF sh])
next
  assume a: "e \<in> set (concat corpus) \<and> mask_size e \<noteq> 1048576"
  show "\<exists>err. init_train corpus = Inl err"
  proof (cases "train_folders corpus initial_state")
    case (Inl x)
    then show ?thesis by (simp add: init_train_loop_error)
  next
    case (Inr s)
    then have "\<forall>x\<in>set (concat corpus). entry_ok x"
      by (simp add: train_folders_concat train_files_Inr_iff)
    with a show ?thesis by (auto simp: entry_ok_def)
  qed
next
  fix ds
  assume r: "init_train corpus = Inr ds"
  show "length (labels ds) = 16 * length (concat corpus)"
  proof (cases "train_folders corpus initial_state")
    case (Inl x)
    with r show ?thesis by (simp add: init_train_loop_error)
  next
    case (Inr s)
    then have ok: "\<forall>x\<in>set (concat corpus). entry_ok x"
      and s: "s = fold step (concat corpus) initial_state"
      by (simp_all add: train_folders_concat train_files_Inr_iff)
    from r have "labels ds = labels s"
      unfolding init_train_after_loops [OF Inr] by (auto split: if_splits)
    also have "\<dots> = concat (map (\<lambda>e. label_patches (cm_rgb_np e)) (concat corpus))"
      unfolding s labels_fold_step by (simp add: initial_state_def)
    finally show ?thesis
      using ok by (simp add: label_patches_total_length entry_ok_def)
  qed
qed

theorem label_tiling_fixed_reshape_witness:
  "train_file small_entry initial_state = Inl ValueError
   \<and> (\<exists>st'. train_file band_entry_512 initial_state = Inr st'
          \<and> length (labels st') = 16 \<and> length (imgs_1 st') = 4)"
proof -
  have small: "mask_size small_entry \<noteq> 1048576"
    by (simp add: mask_size_def small_entry_def c4_img_def)
  have r: "train_file band_entry_512 initial_state = Inr (step band_entry_512 initial_state)"
    by (simp add: train_file_Inr_iff entry_ok_band_entry_512)
  have sh: "shape (I1 band_entry_512) = [512, 512, 1]"
    by (simp add: band_entry_512_def raster_512_def)
  from label_tiling_fixed_reshape [of small_entry initial_state "[]"] small
  have 1: "train_file small_entry initial_state = Inl ValueError"
    by blast
  from label_tiling_fixed_reshape [of band_entry_512 initial_state "[]"] r sh
  have "length (labels (step band_entry_512 initial_state)) = length (labels (initial_state :: nat init_state)) + 16
      \<and> length (imgs_1 (step band_entry_512 initial_state))
           = length (imgs_1 (initial_state :: nat init_state)) + (512 div 256) * (512 div 256)"
    by blast
  then have 2: "length (labels (step band_entry_512 initial_state)) = 16
      \<and> length (imgs_1 (step band_entry_512 initial_state)) = 4"
    by (simp add: initial_state_def)
  from 1 2 r show ?thesis by simp
qed

text \<open>
  C1.  The three sequences are not aligned.  On a corpus of one file whose label image
  has eight horizontal colour bands, the constructor returns a dataset whose label patch
  0 holds, at row 128 and column 0, class 0 (pixel (32, 0) of the mask: the reshape cuts
  the mask into bands of 64 full rows), while the spatial tile 0 of the mask holds class 1
  there (pixel (128, 0)), the pixel that image patch 0 shows at the same place.
\<close>

theorem label_patch_is_not_spatial_tile:
  "\<exists>ds m. init_train [[band_entry]] = Inr ds \<and> decode_rgb band_image = Inr m
      \<and> item (labels ds ! 0) [128, 0] = 0 \<and> item m [128, 0] = 1
      \<and> tolist2 (labels ds ! 0) \<noteq> mask_tile m 0
      \<and> item (imgs_1 ds ! 0) [0, 128, 0] = item raster_1024 [128, 0, 0]"
proof -
  obtain ds where ds: "init_train [[band_entry]] = Inr ds"
    and lab: "labels ds = label_patches band_image" and im: "imgs_1 ds = patches_of raster_1024"
    using init_train_band by blast
  obtain m where m: "decode_rgb band_image = Inr m"
    by (simp add: decode_rgb_Inr)
  have sz: "height band_image * width band_image = 1048576"
    by (simp add: band_image_def)
  have c0: "pixel_class (snd (color_label_dict ! 0)) = 0"
    by (intro pixel_class_palette palette_nth) simp
  have c1: "pixel_class (snd (color_label_dict ! 1)) = 1"
    by (intro pixel_class_palette palette_nth) simp
  have l: "item (label_patches band_image ! 0) [128, 0] = 0"
    using label_patch_item [OF sz, of 0 128 0] c0 by (simp add: band_image_def)
  have t: "item m [128, 0] = 1"
    using decode_rgb_cell [OF m, of 128 0] c1 by (simp add: band_image_def)
  have shp: "shape (label_patches band_image ! 0) = [256, 256]"
    by (simp add: label_patches_eq [OF m sz] subarray_def)
  have shm: "shape m = [1024, 1024]"
    using decode_rgb_shape [OF m] by (simp add: band_image_def)
  have ne: "tolist2 (label_patches band_image ! 0) \<noteq> mask_tile m 0"
  proof
    assume "tolist2 (label_patches band_image ! 0) = mask_tile m 0"
    then have "tolist2 (label_patches band_image ! 0) ! 128 ! 0 = mask_tile m 0 ! 128 ! 0"
      by simp
    then have "item (label_patches band_image ! 0) [128, 0] = item m [128, 0]"
      by (simp add: tolist2_def mask_tile_def shp shm)
    with l t show False by simp
  qed
  have i: "item (patches_of raster_1024 ! 0) [0, 128, 0] = item raster_1024 [128, 0, 0]"
    using image_patch_item [of raster_1024 1024 1024 1 0 0 128 0]
    by (simp add: raster_1024_def)
  from ds m l t ne i show ?thesis
    by (simp add: lab im)
qed

section \<open>Configuration loading, verified\<close>

text \<open>
  C3.  \<open>load_config\<close> does not return after a parse failure.  When the configuration
  file is there and does not parse, the handler prints the parse failure and control falls
  through to \<open>return config\<close>, the return of the success path; \<open>config\<close> was
  never bound, so the return itself raises \<open>UnboundLocalError\<close>, inside
  \<open>load_config\<close>, and no value reaches the caller.
\<close>

theorem load_config_parse_failure_raises:
  assumes "fs configfile = Some stream" and "safe_load stream = Inl exc"
  shows "load_config fs safe_load configfile = ([exc], Inl UnboundLocalError)"
  using assms by (simp add: load_config_def)

theorem load_config_parse_failure_raises_witness:
  "load_config c3_fs c3_safe_load ''config.yml''
     = ([''while parsing a flow sequence''], Inl UnboundLocalError)"
proof -
  have 1: "c3_fs ''config.yml'' = Some ''dataset: [''"
    by (simp add: c3_fs_def)
  have 2: "c3_safe_load ''dataset: ['' = Inl ''while parsing a flow sequence''"
    by (simp add: c3_safe_load_def)
  show ?thesis
    using load_config_parse_failure_raises
            [of c3_fs "''config.yml''" "''dataset: [''" c3_safe_load "''while parsing a flow sequence''"]
          1 2
    by simp
qed

section \<open>The inference loop, verified\<close>

lemma image_patches_standardize:
  assumes "shape img = [H, W, B]"
  shows "image_patches (standardize env img)
           = Inr (prints_of (standardize env img), patches_of (standardize env img))
         \<and> length (patches_of (standardize env img)) = (H div 256) * (W div 256)"
proof -
  have sh: "shape (standardize env img) = [H, W, B]"
    and st: "strides (standardize env img) = [W * B, B, 1]"
    by (simp_all add: standardize_def fresh_def assms)
  show ?thesis
    by (simp add: image_patches_Inr [OF sh st] prints_of_def patches_of_def)
qed

lemma test_files_24:
  assumes len: "length names = 24"
    and rd: "\<forall>i<24. imread env (path_join dir (names ! i)) = Inr (raw i)"
    and ip: "\<forall>i<24. image_patches (standardize env (raw i)) = Inr (outs i, ps i)"
  shows "idx + k = 24 \<Longrightarrow>
         test_files env dir names idx (drop idx names) st =
           Inr (st\<lparr>imgs_1 := imgs_1 st @ concat (map ps [idx..<23]),
                    imgs_2 := imgs_2 st @ concat (map (\<lambda>i. ps (Suc i)) [idx..<23]),
                    printed := printed st @ concat (map (\<lambda>i. outs i @ outs (Suc i)) [idx..<23])\<rparr>)"
proof (induction k arbitrary: idx st)
  case 0
  then show ?case by (simp add: len)
next
  case (Suc k)
  then have lt: "idx < 24" by simp
  have dr: "drop idx names = names ! idx # drop (Suc idx) names"
    using lt len by (simp add: Cons_nth_drop_Suc)
  show ?case
  proof (cases "idx = 23")
    case True
    have d24: "drop (Suc idx) names = []"
      using len True by simp
    show ?thesis
      unfolding dr d24 using True by simp
  next
    case False
    with lt have lt23: "idx < 23" by simp
    have r1: "imread env (path_join dir (names ! idx)) = Inr (raw idx)"
      using rd lt by blast
    have r2: "imread env (path_join dir (names ! Suc idx)) = Inr (raw (Suc idx))"
      using rd lt23 by simp
    have p1: "image_patches (standardize env (raw idx)) = Inr (outs idx, ps idx)"
      using ip lt by blast
    have p2: "image_patches (standardize env (raw (Suc idx))) = Inr (outs (Suc idx), ps (Suc idx))"
      using ip lt23 by simp
    let ?st1 = "st\<lparr>imgs_1 := imgs_1 st @ ps idx, imgs_2 := imgs_2 st @ ps (Suc idx),
                    printed := printed st @ outs idx @ outs (Suc idx)\<rparr>"
    have tp: "test_pair env (path_join dir (names ! idx)) (path_join dir (names ! Suc idx)) st = Inr ?st1"
      by (simp add: test_pair_def r1 r2 p1 p2 bind_err_def)
    have ih: "test_files env dir names (Suc idx) (drop (Suc idx) names) ?st1 =
           Inr (?st1\<lparr>imgs_1 := imgs_1 ?st1 @ concat (map ps [Suc idx..<23]),
                    imgs_2 := imgs_2 ?st1 @ concat (map (\<lambda>i. ps (Suc i)) [Suc idx..<23]),
                    printed := printed ?st1 @ concat (map (\<lambda>i. outs i @ outs (Suc i)) [Suc idx..<23])\<rparr>)"
      using Suc.prems by (intro Suc.IH) simp
    have up: "[idx..<23] = idx # [Suc idx..<23]"
      using lt23 by (simp add: upt_conv_Cons)
    show ?thesis
      using False lt23 len
      by (simp add: dr tp ih bind_err_def up del: upt_rec_numeral)
  qed
qed

lemma contains_append: "contains sub (pre @ sub @ post)"
proof (induction pre)
  case Nil
  show ?case
  proof (cases "sub @ post")
    case Nil
    then show ?thesis by simp
  next
    case (Cons a l)
    have "take (length sub) (a # l) = sub"
      using Cons [symmetric] by simp
    then show ?thesis
      using Cons by simp
  qed
next
  case (Cons c pre)
  then show ?case by simp
qed

lemma contains_frame_name: "contains ''-01.tif'' (frame_name i)"
  using contains_append [of "''-01.tif''" "replicate i CHR ''x''" "[]"]
  by (simp add: frame_name_def)

lemma readme_not_frame: "\<not> contains ''-01.tif'' ''readme.txt''"
  by simp

text \<open>
  C2, as the code has it.  For a location directory whose names containing
  \<open>-01.tif\<close> sort into a list of exactly 24 files that read and tile without error,
  the loop processes a pair for every index but the last, 23: the pairs \<open>(i, i + 1)\<close>
  for \<open>i = 0, ..., 22\<close> in order, the file at position \<open>i\<close> as the before image
  and the file at position \<open>i + 1\<close> as the after image.  The before sequence receives
  the patches of the files 0 to 22 and the after sequence those of the files 1 to 23.
\<close>

theorem test_location_24_frames:
  assumes "listdir env test_folder_path = Inr listing"
    and "natsorted env (filter (contains ''-01.tif'') listing) = names"
    and "length names = 24"
    and "\<forall>i<24. imread env (path_join test_folder_path (names ! i)) = Inr (raw i)"
    and "\<forall>i<24. image_patches (standardize env (raw i)) = Inr (outs i, ps i)"
  shows "test_location env test_folder_path st =
           Inr (st\<lparr>imgs_1 := imgs_1 st @ concat (map ps [0..<23]),
                    imgs_2 := imgs_2 st @ concat (map (\<lambda>i. ps (Suc i)) [0..<23]),
                    printed := printed st @ concat (map (\<lambda>i. outs i @ outs (Suc i)) [0..<23])\<rparr>)"
proof -
  have "test_location env test_folder_path st = test_files env test_folder_path names 0 (drop 0 names) st"
    by (simp add: test_location_def assms(1,2) bind_err_def)
  also have "\<dots> = Inr (st\<lparr>imgs_1 := imgs_1 st @ concat (map ps [0..<23]),
                    imgs_2 := imgs_2 st @ concat (map (\<lambda>i. ps (Suc i)) [0..<23]),
                    printed := printed st @ concat (map (\<lambda>i. outs i @ outs (Suc i)) [0..<23])\<rparr>)"
    by (rule test_files_24 [OF assms(3,4,5), of 0 24]) simp
  finally show ?thesis .
qed

theorem test_location_24_frames_witness:
  "\<exists>st'. test_location c24_env ''boxes/60N/t1/L3H-SR'' initial_state = Inr st'
      \<and> length (imgs_1 st') = 92 \<and> length (imgs_2 st') = 92"
proof -
  let ?X = "standardize c24_env raster_512"
  have ld: "listdir c24_env ''boxes/60N/t1/L3H-SR'' = Inr (''readme.txt'' # map frame_name [0..<24])"
    by (simp add: c24_env_def)
  have ns: "natsorted c24_env (filter (contains ''-01.tif'') (''readme.txt'' # map frame_name [0..<24]))
              = map frame_name [0..<24]"
    using readme_not_frame by (simp add: c24_env_def contains_frame_name del: contains.simps)
  have len: "length (map frame_name [0..<24]) = 24"
    by simp
  have rd: "\<forall>i<24. imread c24_env (path_join ''boxes/60N/t1/L3H-SR'' (map frame_name [0..<24] ! i))
              = Inr raster_512"
    by (simp add: c24_env_def)
  have sh: "shape raster_512 = [512, 512, 1]"
    by (simp add: raster_512_def)
  note ips = image_patches_standardize [OF sh, of c24_env]
  have ip: "\<forall>i<24. image_patches ?X = Inr (prints_of ?X, patches_of ?X)"
    using ips by simp
  have n: "length (patches_of ?X) = 4"
    using ips by simp
  let ?s = "initial_state :: nat init_state"
  have "test_location c24_env ''boxes/60N/t1/L3H-SR'' ?s =
           Inr (?s\<lparr>imgs_1 := imgs_1 ?s @ concat (map (\<lambda>i. patches_of ?X) [0..<23]),
                    imgs_2 := imgs_2 ?s @ concat (map (\<lambda>i. patches_of ?X) [0..<23]),
                    printed := printed ?s
                       @ concat (map (\<lambda>i. prints_of ?X @ prints_of ?X) [0..<23])\<rparr>)"
    by (rule test_location_24_frames
          [where raw = "\<lambda>i. raster_512" and outs = "\<lambda>i. prints_of ?X" and ps = "\<lambda>i. patches_of ?X",
           OF ld ns len rd ip])
  then show ?thesis
    by (simp add: initial_state_def length_concat comp_def n sum_list_triv)
qed

text \<open>
  For any other number of such files but none, the last index is not skipped: the loop
  reads one position past the end of the list and the constructor raises
  \<open>IndexError\<close>.
\<close>

lemma test_files_overrun:
  assumes len: "length names = n" and n: "n \<noteq> 24"
    and rd: "\<forall>i<n. \<exists>raw. imread env (path_join dir (names ! i)) = Inr raw
                        \<and> \<not> isl (image_patches (standardize env raw))"
  shows "k = n - idx \<Longrightarrow> idx < n \<Longrightarrow>
         test_files env dir names idx (drop idx names) st = Inl IndexError"
proof (induction k arbitrary: idx st)
  case 0
  then show ?case by simp
next
  case (Suc k)
  have dr: "drop idx names = names ! idx # drop (Suc idx) names"
    using Suc.prems(2) len by (simp add: Cons_nth_drop_Suc)
  show ?case
  proof (cases "idx = 23")
    case True
    with Suc.prems(2) n have lt: "Suc idx < n" by simp
    have "test_files env dir names (Suc idx) (drop (Suc idx) names) st = Inl IndexError"
      using Suc.prems(1) lt by (intro Suc.IH) simp_all
    then show ?thesis
      unfolding dr using True by simp
  next
    case False
    show ?thesis
    proof (cases "Suc idx < n")
      case over: False
      then show ?thesis
        using False len by (simp add: dr)
    next
      case True
      obtain r1 where r1: "imread env (path_join dir (names ! idx)) = Inr r1"
        and p1: "\<not> isl (image_patches (standardize env r1))"
        using rd Suc.prems(2) by blast
      obtain r2 where r2: "imread env (path_join dir (names ! Suc idx)) = Inr r2"
        and p2: "\<not> isl (image_patches (standardize env r2))"
        using rd True by blast
      obtain st1 where tp: "test_pair env (path_join dir (names ! idx))
                               (path_join dir (names ! Suc idx)) st = Inr st1"
        using p1 p2
        by (cases "image_patches (standardize env r1)"; cases "image_patches (standardize env r2)")
           (auto simp: test_pair_def r1 r2 bind_err_def)
      have "test_files env dir names (Suc idx) (drop (Suc idx) names) st1 = Inl IndexError"
        using Suc.prems(1) True by (intro Suc.IH) simp_all
      then show ?thesis
        using False True len by (simp add: dr tp bind_err_def)
    qed
  qed
qed

lemma test_location_overrun:
  assumes "listdir env test_folder_path = Inr listing"
    and "natsorted env (filter (contains ''-01.tif'') listing) = names"
    and "names \<noteq> []" and "length names \<noteq> 24"
    and "\<forall>i<length names. \<exists>raw. imread env (path_join test_folder_path (names ! i)) = Inr raw
                        \<and> \<not> isl (image_patches (standardize env raw))"
  shows "test_location env test_folder_path st = Inl IndexError"
proof -
  have "test_location env test_folder_path st = test_files env test_folder_path names 0 (drop 0 names) st"
    by (simp add: test_location_def assms(1,2) bind_err_def)
  also have "\<dots> = Inl IndexError"
    using assms(3) by (intro test_files_overrun [OF refl assms(4,5) refl]) simp
  finally show ?thesis .
qed

lemma ends_with_frame_name: "ends_with ''-01.tif'' (frame_name i)"
  by (simp add: ends_with_def frame_name_def)

lemma aux_not_suffix: "\<not> ends_with ''-01.tif'' (frame_name 24 @ ''.aux.xml'')"
  by (simp add: ends_with_def frame_name_def)

lemma aux_contains: "contains ''-01.tif'' (frame_name 24 @ ''.aux.xml'')"
  using contains_append [of "''-01.tif''" "replicate 24 CHR ''x''" "''.aux.xml''"]
  by (simp add: frame_name_def)

lemma aux_suffix_count: "length (filter (ends_with ''-01.tif'') aux_listing) = 24"
  using aux_not_suffix by (simp add: aux_listing_def filter_map comp_def ends_with_frame_name)

lemma aux_contains_all: "filter (contains ''-01.tif'') aux_listing = aux_listing"
  using aux_contains
  by (simp add: aux_listing_def filter_map comp_def contains_frame_name del: contains.simps)

text \<open>
  The claim as stated fails twice.  With two such files the last index 1 is not skipped,
  and the constructor raises \<open>IndexError\<close>.  And the names are kept by a substring
  test: in a directory of 24 names ending in \<open>-01.tif\<close> and one side file that only
  contains it, the list has 25 names, and the constructor raises \<open>IndexError\<close> where
  the 24 names with the suffix alone would have been processed.
\<close>

theorem test_location_not_last_index_nor_suffix:
  "test_location c2_env ''boxes/60N/t1/L3H-SR'' initial_state = Inl IndexError
   \<and> length (filter (ends_with ''-01.tif'') aux_listing) = 24
   \<and> test_location aux_env ''boxes/60N/t1/L3H-SR'' initial_state = Inl IndexError"
proof -
  have sh: "shape raster_512 = [512, 512, 1]"
    by (simp add: raster_512_def)
  have ok2: "\<not> isl (image_patches (standardize c2_env raster_512))"
    using image_patches_standardize [OF sh, of c2_env] by simp
  have oka: "\<not> isl (image_patches (standardize aux_env raster_512))"
    using image_patches_standardize [OF sh, of aux_env] by simp
  have cf: "contains ''-01.tif'' ''2018-01-01.tif''" "contains ''-01.tif'' ''2018-02-01.tif''"
    by simp_all
  have 1: "test_location c2_env ''boxes/60N/t1/L3H-SR'' initial_state = Inl IndexError"
  proof (rule test_location_overrun [where names = "[''2018-01-01.tif'', ''2018-02-01.tif'']"])
    show "listdir c2_env ''boxes/60N/t1/L3H-SR'' = Inr [''2018-01-01.tif'', ''2018-02-01.tif'']"
      by (simp add: c2_env_def)
    show "natsorted c2_env (filter (contains ''-01.tif'') [''2018-01-01.tif'', ''2018-02-01.tif''])
            = [''2018-01-01.tif'', ''2018-02-01.tif'']"
      by (simp add: c2_env_def cf del: contains.simps)
    show "\<forall>i<length [''2018-01-01.tif'', ''2018-02-01.tif''].
            \<exists>raw. imread c2_env (path_join ''boxes/60N/t1/L3H-SR'' ([''2018-01-01.tif'', ''2018-02-01.tif''] ! i)) = Inr raw
                  \<and> \<not> isl (image_patches (standardize c2_env raw))"
      using ok2 by (simp add: c2_env_def)
  qed simp_all
  have 2: "test_location aux_env ''boxes/60N/t1/L3H-SR'' initial_state = Inl IndexError"
  proof (rule test_location_overrun [where names = aux_listing])
    show "listdir aux_env ''boxes/60N/t1/L3H-SR'' = Inr aux_listing"
      by (simp add: aux_env_def)
    show "natsorted aux_env (filter (contains ''-01.tif'') aux_listing) = aux_listing"
      by (simp add: aux_env_def aux_contains_all)
    show "aux_listing \<noteq> []"
      by (simp add: aux_listing_def)
    show "length aux_listing \<noteq> 24"
      by (simp add: aux_listing_def)
    show "\<forall>i<length aux_listing.
            \<exists>raw. imread aux_env (path_join ''boxes/60N/t1/L3H-SR'' (aux_listing ! i)) = Inr raw
                  \<and> \<not> isl (image_patches (standardize aux_env raw))"
      using oka by (simp add: aux_env_def)
  qed
  from 1 aux_suffix_count 2 show ?thesis by simp
qed

end
